theory Spec2Isabelle
  imports Complex_Main
begin

section \<open>Values shared by both services\<close>

text \<open>
  The repository holds two FastAPI services: \<^verbatim>\<open>ramble_mode_v2.py\<close> (one model, loaded at
  start-up, with the pause-gap speaker labelling) and \<^verbatim>\<open>ramble_mode_v2_multi.py\<close> (a
  selectable model, loaded on first use). Both have a handler \<^verbatim>\<open>transcribe\<close>; the handler
  of the first file keeps the name \<open>transcribe\<close> here and the one of the second file is
  \<open>transcribe_multi\<close>.

  Times are Python floats in the source. A time is modelled as the rational number the
  float denotes: every finite float is a rational, and the comparison with \<^verbatim>\<open>2.0\<close> is
  exact. The subtraction of line 114 rounds its result to the nearest float, a tie going
  to the even significand; \<open>float_sub\<close> below does the same on the rationals.
  Python strings are modelled as \<open>string\<close>, one \<open>char\<close> per code point below 256.
\<close>

type_synonym path = string

record raw_segment =
  raw_start :: rat
  raw_end :: rat
  raw_text :: string

text \<open>The dict returned by \<^verbatim>\<open>model.transcribe\<close>; the source reads its keys with
  \<^verbatim>\<open>result.get(key, default)\<close>, so each key may be absent.\<close>

record whisper_result =
  res_segments :: "raw_segment list option"
  res_text :: "string option"
  res_language :: "string option"

definition dict_get :: "'a option \<Rightarrow> 'a \<Rightarrow> 'a" where
  "dict_get v d = (case v of None \<Rightarrow> d | Some x \<Rightarrow> x)"

text \<open>An exception carries what \<^verbatim>\<open>str(e)\<close> and \<^verbatim>\<open>traceback.format_exc()\<close> give for it.
  \<^verbatim>\<open>subprocess.TimeoutExpired\<close> is a subclass of \<^verbatim>\<open>Exception\<close>.\<close>

datatype exn = TimeoutExpired string string | OtherException string string

fun str_exn :: "exn \<Rightarrow> string" where
  "str_exn (TimeoutExpired m tb) = m"
| "str_exn (OtherException m tb) = m"

fun format_exc :: "exn \<Rightarrow> string" where
  "format_exc (TimeoutExpired m tb) = tb"
| "format_exc (OtherException m tb) = tb"

record completed_process =
  returncode :: int
  stderr :: string

record options =
  opt_task :: string
  opt_fp16 :: bool
  opt_language :: "string option"

datatype call =
    Ffmpeg path path
  | ModelTranscribe path options
  | LoadModel string "string option"
  | Unlink path

text \<open>The world a request runs in: the paths that exist in the file system, and the
  external capabilities invoked so far (oldest first).\<close>

record world =
  files :: "path set"
  calls :: "call list"

text \<open>What the external collaborators do during one request: the name
  \<^verbatim>\<open>NamedTemporaryFile\<close> picks (a stem, to which the suffix is appended), what
  \<^verbatim>\<open>f.write(audio_bytes)\<close> does (it returns, or raises the given exception), what
  \<^verbatim>\<open>subprocess.run\<close> of ffmpeg does (it raises or completes, and may leave its output
  file behind either way), what \<^verbatim>\<open>model.transcribe\<close> does,
  \<^verbatim>\<open>torch.cuda.is_available()\<close>, and what \<^verbatim>\<open>os.unlink\<close> does on a path (it removes the
  file, or raises the given exception and leaves it).\<close>

record env =
  tmp_stem :: path
  write_upload :: "exn option"
  ffmpeg_run :: "exn + completed_process"
  ffmpeg_wrote :: bool
  model_transcribe :: "exn + whisper_result"
  cuda_available :: bool
  unlink_raises :: "path \<Rightarrow> exn option"

subsection \<open>Library functions of Python the handlers call\<close>

text \<open>\<^verbatim>\<open>str(n)\<close> for a natural number, as the f-string \<^verbatim>\<open>f"Speaker {(i % 2) + 1}"\<close> needs it.\<close>

definition digit_char :: "nat \<Rightarrow> char" where
  "digit_char d = char_of (48 + d)"

fun str_nat :: "nat \<Rightarrow> string" where
  "str_nat n = (if n < 10 then [digit_char n] else str_nat (n div 10) @ [digit_char (n mod 10)])"

declare str_nat.simps [simp del]

text \<open>\<^verbatim>\<open>str.isspace\<close> on the code points below 256, and \<^verbatim>\<open>str.strip()\<close>.\<close>

definition isspace :: "char \<Rightarrow> bool" where
  "isspace c = (let n = (of_char c :: nat) in
     (9 \<le> n \<and> n \<le> 13) \<or> (28 \<le> n \<and> n \<le> 32) \<or> n = 133 \<or> n = 160)"

definition strip :: "string \<Rightarrow> string" where
  "strip s = rev (dropWhile isspace (rev (dropWhile isspace s)))"

text \<open>\<^verbatim>\<open>round(x, 2)\<close>: the closest multiple of 1/100, a tie going to the even one.\<close>

definition round_half_even :: "rat \<Rightarrow> int" where
  "round_half_even x =
     (let f = \<lfloor>x\<rfloor>; d = x - of_int f
      in if d < 1 / 2 then f else if 1 / 2 < d then f + 1 else if even f then f else f + 1)"

definition round2 :: "rat \<Rightarrow> rat" where
  "round2 x = of_int (round_half_even (x * 100)) / 100"

text \<open>\<^verbatim>\<open>a - b\<close> on floats (IEEE 754 binary64): the exact difference, rounded to a
  significand of 53 bits, a tie going to the even one; below 2 to the power -1022 the
  spacing stays that of the subnormal numbers. \<open>bit_length\<close> is \<^verbatim>\<open>int.bit_length\<close> on the
  positive integers, \<open>ilog2 x\<close> for a positive \<open>x\<close> is the exponent \<open>k\<close> for which \<open>x\<close> lies
  between 2 to the power \<open>k\<close> (included) and twice that (excluded), and \<open>pow2 k\<close> is 2 to
  the power \<open>k\<close>. A difference of two times in seconds is far below the overflow
  threshold, which is not modelled.\<close>

function bit_length :: "int \<Rightarrow> int" where
  "bit_length n = (if n \<le> 0 then 0 else 1 + bit_length (n div 2))"
  by pat_completeness auto

termination bit_length
  by (relation "measure nat") auto

declare bit_length.simps [simp del]

definition ilog2 :: "rat \<Rightarrow> int" where
  "ilog2 x =
     (if 1 \<le> x then bit_length \<lfloor>x\<rfloor> - 1
      else - bit_length (\<lceil>1 / x\<rceil> - 1))"

definition pow2 :: "int \<Rightarrow> rat" where
  "pow2 k = (if 0 \<le> k then 2 ^ nat k else 1 / 2 ^ nat (- k))"

definition float_round :: "rat \<Rightarrow> rat" where
  "float_round x =
     (if x = 0 then 0
      else (let k = max (ilog2 \<bar>x\<bar>) (- 1022); q = pow2 (k - 52)
            in of_int (round_half_even (x / q)) * q))"

definition float_sub :: "rat \<Rightarrow> rat \<Rightarrow> rat" where
  "float_sub a b = float_round (a - b)"

text \<open>\<^verbatim>\<open>s.replace(old, new)\<close>: every occurrence of \<open>old\<close>, left to right, without overlap.\<close>

function replace_from :: "string \<Rightarrow> string \<Rightarrow> string \<Rightarrow> string" where
  "replace_from old new [] = []"
| "replace_from old new (c # cs) =
     (if old \<noteq> [] \<and> take (length old) (c # cs) = old
      then new @ replace_from old new (drop (length old) (c # cs))
      else c # replace_from old new cs)"
  by pat_completeness auto
termination
  by (relation "measure (\<lambda>(old, new, s). length s)") auto

definition str_replace :: "string \<Rightarrow> string \<Rightarrow> string \<Rightarrow> string" where
  "str_replace s old new =
     (if old = [] then new @ concat (map (\<lambda>c. c # new) s) else replace_from old new s)"

text \<open>\<^verbatim>\<open>os.path.splitext(p)[1]\<close> (posixpath): the extension starts at the last dot of the
  last path component, unless only dots stand before it there.\<close>

definition splitext_ext :: "string \<Rightarrow> string" where
  "splitext_ext p =
     (let base = rev (takeWhile (\<lambda>c. c \<noteq> CHR ''/'') (rev p));
          ext_rev = takeWhile (\<lambda>c. c \<noteq> CHR ''.'') (rev base)
      in if length ext_rev = length base then []
         else if dropWhile (\<lambda>c. c = CHR ''.'') (take (length base - length ext_rev - 1) base) = []
         then []
         else CHR ''.'' # rev ext_rev)"

section \<open>ramble\_mode\_v2.py\<close>

record request =
  req_filename :: string
  req_language :: "string option"
  req_task :: string
  req_speaker_detection :: bool

record segment =
  speaker :: string
  seg_text :: string
  seg_start :: rat
  seg_end :: rat

record success_body =
  b_text :: string
  b_language :: string
  b_duration_seconds :: rat
  b_segments :: "segment list"
  b_status :: string
  b_model :: string
  b_task :: string
  b_speakers_detected :: nat

text \<open>A handler returns a dict (FastAPI answers 200) or a \<^verbatim>\<open>JSONResponse\<close> of an error
  dict, whose values are all strings, with a status code; or an exception leaves the
  handler (\<open>Raised\<close>), which the framework answers with status 500.\<close>

datatype 'b response = Body 'b | JSONResponse "(string \<times> string) list" nat | Raised exn

fun status_code :: "'b response \<Rightarrow> nat" where
  "status_code (Body b) = 200"
| "status_code (JSONResponse d c) = c"
| "status_code (Raised ex) = 500"

fun returned :: "'b response \<Rightarrow> bool" where
  "returned (Body b) = True"
| "returned (JSONResponse d c) = True"
| "returned (Raised ex) = False"

definition MODEL_SIZE :: string where
  "MODEL_SIZE = ''base''"

text \<open>Lines 108 to 123: the loop over \<^verbatim>\<open>enumerate(segments)\<close>, with its three variables
  \<^verbatim>\<open>formatted_segments\<close>, \<^verbatim>\<open>current_speaker\<close> and \<^verbatim>\<open>last_end\<close> as the state.\<close>

fun speaker_loop ::
  "bool \<Rightarrow> nat \<Rightarrow> raw_segment list \<Rightarrow> segment list \<times> string \<times> rat \<Rightarrow> segment list \<times> string \<times> rat"
where
  "speaker_loop speaker_detection i [] st = st"
| "speaker_loop speaker_detection i (seg # segs) (formatted_segments, current_speaker, last_end) =
     (let current_speaker' =
            (if float_sub (raw_start seg) last_end > 2 \<and> speaker_detection
             then ''Speaker '' @ str_nat ((i mod 2) + 1)
             else current_speaker)
      in speaker_loop speaker_detection (i + 1) segs
           (formatted_segments @
              [\<lparr>speaker = current_speaker',
                seg_text = strip (raw_text seg),
                seg_start = round2 (raw_start seg),
                seg_end = round2 (raw_end seg)\<rparr>],
            current_speaker',
            raw_end seg))"

definition format_segments :: "bool \<Rightarrow> raw_segment list \<Rightarrow> segment list" where
  "format_segments speaker_detection segments =
     fst (speaker_loop speaker_detection 0 segments ([], ''Speaker 1'', 0))"

text \<open>Lines 103 to 134: the success dict built from the recognition result.\<close>

definition format_response :: "request \<Rightarrow> whisper_result \<Rightarrow> success_body" where
  "format_response req result =
     (let segments = dict_get (res_segments result) [];
          full_text = strip (dict_get (res_text result) []);
          detected_language = dict_get (res_language result) ''unknown'';
          formatted_segments = format_segments (req_speaker_detection req) segments
      in \<lparr>b_text = full_text,
          b_language = detected_language,
          b_duration_seconds = (if segments \<noteq> [] then round2 (raw_end (last segments)) else 0),
          b_segments = formatted_segments,
          b_status = ''success'',
          b_model = ''whisper-'' @ MODEL_SIZE,
          b_task = req_task req,
          b_speakers_detected =
            (if req_speaker_detection req
             then length (remdups (map speaker formatted_segments))
             else 1)\<rparr>)"

definition make_options :: "('a env_scheme) \<Rightarrow> string \<Rightarrow> string option \<Rightarrow> options" where
  "make_options e task lang =
     \<lparr>opt_task = task,
      opt_fp16 = cuda_available e,
      opt_language = (case lang of None \<Rightarrow> None | Some l \<Rightarrow> if l = [] then None else Some l)\<rparr>"

text \<open>Lines 76 to 134: the body of the \<^verbatim>\<open>try\<close>, which returns a response (\<open>Inr\<close>) or
  raises (\<open>Inl\<close>).\<close>

definition try_block ::
  "env \<Rightarrow> request \<Rightarrow> path \<Rightarrow> path \<Rightarrow> world \<Rightarrow> (exn + success_body response) \<times> world"
where
  "try_block e req temp_path wav_path w =
     (let w1 = w\<lparr>files := (if ffmpeg_wrote e then insert wav_path (files w) else files w),
                 calls := calls w @ [Ffmpeg temp_path wav_path]\<rparr>
      in case ffmpeg_run e of
           Inl ex \<Rightarrow> (Inl ex, w1)
         | Inr result \<Rightarrow>
             if returncode result \<noteq> 0
             then (Inr (JSONResponse
                     [(''text'', ''''),
                      (''status'', ''error''),
                      (''error'', ''Audio conversion failed: '' @ stderr result)] 400), w1)
             else
               (let opts = make_options e (req_task req) (req_language req);
                    w2 = w1\<lparr>calls := calls w1 @ [ModelTranscribe wav_path opts]\<rparr>
                in case model_transcribe e of
                     Inl ex \<Rightarrow> (Inl ex, w2)
                   | Inr result \<Rightarrow> (Inr (Body (format_response req result)), w2)))"

text \<open>Lines 136 to 150: the two \<^verbatim>\<open>except\<close> clauses, in the order of the source.\<close>

fun except_clauses :: "exn + success_body response \<Rightarrow> success_body response" where
  "except_clauses (Inr resp) = resp"
| "except_clauses (Inl (TimeoutExpired m tb)) =
     JSONResponse
       [(''text'', ''''),
        (''status'', ''error''),
        (''error'', ''Audio processing timed out (file too large?)'')] 408"
| "except_clauses (Inl (OtherException m tb)) =
     JSONResponse
       [(''text'', ''''),
        (''status'', ''error''),
        (''error'', str_exn (OtherException m tb)),
        (''traceback'', format_exc (OtherException m tb))] 500"

text \<open>Lines 152 to 156 (and 174 to 177 of the other file): the \<^verbatim>\<open>finally\<close> clause. An
  \<^verbatim>\<open>os.unlink\<close> that raises ends the loop: the exception (\<open>Some\<close>) leaves the clause, and
  the paths after it are not visited.\<close>

fun cleanup ::
  "('a env_scheme) \<Rightarrow> path list \<Rightarrow> ('b world_scheme) \<Rightarrow> exn option \<times> ('b world_scheme)"
where
  "cleanup e [] w = (None, w)"
| "cleanup e (p # ps) w =
     (if p \<in> files w
      then (case unlink_raises e p of
              Some ex \<Rightarrow> (Some ex, w\<lparr>calls := calls w @ [Unlink p]\<rparr>)
            | None \<Rightarrow> cleanup e ps (w\<lparr>files := files w - {p}, calls := calls w @ [Unlink p]\<rparr>))
      else cleanup e ps w)"

declare cleanup.simps [simp del]

text \<open>A \<^verbatim>\<open>try\<close> statement with its \<^verbatim>\<open>finally\<close>: an exception of the \<^verbatim>\<open>finally\<close> clause
  replaces the response the \<^verbatim>\<open>try\<close> and its \<^verbatim>\<open>except\<close> clauses were about to return.\<close>

definition after_finally :: "exn option \<Rightarrow> 'b response \<Rightarrow> 'b response" where
  "after_finally raised resp = (case raised of Some ex \<Rightarrow> Raised ex | None \<Rightarrow> resp)"

definition suffix_of :: "string \<Rightarrow> string" where
  "suffix_of filename = (let ext = splitext_ext filename in if ext = [] then ''.ogg'' else ext)"

definition temp_path_of :: "('a env_scheme) \<Rightarrow> string \<Rightarrow> path" where
  "temp_path_of e filename = tmp_stem e @ suffix_of filename"

definition wav_path_of :: "('a env_scheme) \<Rightarrow> string \<Rightarrow> path" where
  "wav_path_of e filename =
     str_replace (temp_path_of e filename) (suffix_of filename) ''_processed.wav''"

text \<open>Lines 58 to 156: the handler of \<^verbatim>\<open>POST /transcribe\<close>, from the point where the
  upload has been read (line 67; no file of the request exists before).
  \<^verbatim>\<open>NamedTemporaryFile(suffix=suffix, delete=False)\<close> creates the file at \<open>temp_path\<close>; the
  \<^verbatim>\<open>with\<close> block of lines 71 to 73 stands before the \<^verbatim>\<open>try\<close>, so an exception of
  \<^verbatim>\<open>f.write\<close> leaves the handler at once, with the file in place.\<close>

definition transcribe :: "env \<Rightarrow> request \<Rightarrow> world \<Rightarrow> success_body response \<times> world" where
  "transcribe e req w =
     (let temp_path = temp_path_of e (req_filename req);
          w0 = w\<lparr>files := insert temp_path (files w)\<rparr>
      in case write_upload e of
           Some ex \<Rightarrow> (Raised ex, w0)
         | None \<Rightarrow>
             (let wav_path = wav_path_of e (req_filename req);
                  (r, w1) = try_block e req temp_path wav_path w0;
                  (raised, w2) = cleanup e [temp_path, wav_path] w1
              in (after_finally raised (except_clauses r), w2)))"

text \<open>Lines 158 to 164: \<^verbatim>\<open>POST /translate\<close> calls the same handler.\<close>

definition translate :: "env \<Rightarrow> string \<Rightarrow> string option \<Rightarrow> world \<Rightarrow> success_body response \<times> world" where
  "translate e filename source_language w =
     transcribe e
       \<lparr>req_filename = filename, req_language = source_language,
        req_task = ''translate'', req_speaker_detection = False\<rparr> w"

section \<open>ramble\_mode\_v2\_multi.py\<close>

record model_info =
  mi_size :: string
  mi_speed :: string
  mi_accuracy :: string
  mi_vram :: string

definition MODELS :: "(string \<times> model_info) list" where
  "MODELS =
     [(''tiny'', \<lparr>mi_size = ''tiny'', mi_speed = ''fastest'', mi_accuracy = ''basic'', mi_vram = ''1GB''\<rparr>),
      (''base'', \<lparr>mi_size = ''base'', mi_speed = ''fast'', mi_accuracy = ''good'', mi_vram = ''1GB''\<rparr>),
      (''small'', \<lparr>mi_size = ''small'', mi_speed = ''medium'', mi_accuracy = ''better'', mi_vram = ''2GB''\<rparr>),
      (''medium'', \<lparr>mi_size = ''medium'', mi_speed = ''slow'', mi_accuracy = ''great'', mi_vram = ''5GB''\<rparr>),
      (''large'', \<lparr>mi_size = ''large'', mi_speed = ''slowest'', mi_accuracy = ''best'', mi_vram = ''10GB''\<rparr>)]"

definition DEFAULT_MODEL :: string where
  "DEFAULT_MODEL = ''tiny''"

record multi_request =
  mreq_filename :: string
  mreq_model :: string
  mreq_language :: "string option"
  mreq_task :: string

record multi_body =
  mb_text :: string
  mb_language :: string
  mb_duration_seconds :: rat
  mb_model :: string
  mb_model_info :: model_info
  mb_status :: string

text \<open>The process-wide dict \<^verbatim>\<open>loaded_models\<close> joins the world, and \<^verbatim>\<open>whisper.load_model\<close>
  (with the move to the device) joins the collaborators: given the model size and the
  download root, it raises or returns a handle.\<close>

record multi_world = world +
  loaded_models :: "string \<rightharpoonup> nat"

record multi_env = env +
  whisper_load :: "string \<Rightarrow> string option \<Rightarrow> exn + nat"

text \<open>Lines 92 to 112.\<close>

definition get_model :: "multi_env \<Rightarrow> string \<Rightarrow> multi_world \<Rightarrow> (exn + nat) \<times> multi_world" where
  "get_model e model_size w =
     (case loaded_models w model_size of
        Some h \<Rightarrow> (Inr h, w)
      | None \<Rightarrow>
          (let model_path = ''/models/whisper-'' @ model_size @ ''.pt'';
               download_root = (if model_path \<in> files w then Some ''/models'' else None);
               w1 = w\<lparr>calls := calls w @ [LoadModel model_size download_root]\<rparr>
           in case whisper_load e model_size download_root of
                Inl ex \<Rightarrow> (Inl ex, w1)
              | Inr h \<Rightarrow> (Inr h, w1\<lparr>loaded_models := (loaded_models w1)(model_size \<mapsto> h)\<rparr>)))"

text \<open>\<^verbatim>\<open>str(list(MODELS.keys()))\<close>; the keys hold no quote and no backslash, so the
  \<^verbatim>\<open>repr\<close> of each is the key between single quotes.\<close>

fun join_comma :: "string list \<Rightarrow> string" where
  "join_comma [] = []"
| "join_comma [k] = k"
| "join_comma (k # ks) = k @ '', '' @ join_comma ks"

definition str_keys :: "string list \<Rightarrow> string" where
  "str_keys ks = ''['' @ join_comma (map (\<lambda>k. [CHR 0x27] @ k @ [CHR 0x27]) ks) @ '']''"

text \<open>Lines 138 to 166: the body of the \<^verbatim>\<open>try\<close>. The result of \<^verbatim>\<open>subprocess.run\<close> is
  dropped there. \<open>info\<close> is \<^verbatim>\<open>MODELS[model]\<close>, which the validation before the \<^verbatim>\<open>try\<close>
  has found.\<close>

definition try_block_multi ::
  "multi_env \<Rightarrow> multi_request \<Rightarrow> model_info \<Rightarrow> path \<Rightarrow> path \<Rightarrow> multi_world
     \<Rightarrow> (exn + multi_body response) \<times> multi_world"
where
  "try_block_multi e req info temp_path wav_path w =
     (let w1 = w\<lparr>files := (if ffmpeg_wrote e then insert wav_path (files w) else files w),
                 calls := calls w @ [Ffmpeg temp_path wav_path]\<rparr>
      in case ffmpeg_run e of
           Inl ex \<Rightarrow> (Inl ex, w1)
         | Inr completed \<Rightarrow>
             (case get_model e (mreq_model req) w1 of
                (Inl ex, w2) \<Rightarrow> (Inl ex, w2)
              | (Inr model_obj, w2) \<Rightarrow>
                  (let opts = make_options e (mreq_task req) (mreq_language req);
                       w3 = w2\<lparr>calls := calls w2 @ [ModelTranscribe wav_path opts]\<rparr>
                   in case model_transcribe e of
                        Inl ex \<Rightarrow> (Inl ex, w3)
                      | Inr result \<Rightarrow>
                          (Inr (Body
                             \<lparr>mb_text = strip (dict_get (res_text result) []),
                              mb_language = dict_get (res_language result) ''unknown'',
                              mb_duration_seconds =
                                (case res_segments result of
                                   None \<Rightarrow> 0
                                 | Some segments \<Rightarrow>
                                     if segments \<noteq> [] then round2 (raw_end (last segments)) else 0),
                              mb_model = ''whisper-'' @ mreq_model req,
                              mb_model_info = info,
                              mb_status = ''success''\<rparr>), w3))))"

text \<open>Lines 168 to 172: the only \<^verbatim>\<open>except\<close> clause, which catches every exception.\<close>

fun except_clause_multi :: "exn + multi_body response \<Rightarrow> multi_body response" where
  "except_clause_multi (Inr resp) = resp"
| "except_clause_multi (Inl ex) =
     JSONResponse [(''error'', str_exn ex), (''status'', ''error'')] 500"

text \<open>Lines 115 to 177: the handler of \<^verbatim>\<open>POST /transcribe\<close>, from the point where the
  upload has been read (line 130). The \<^verbatim>\<open>with\<close> block of lines 133 to 135 stands before
  the \<^verbatim>\<open>try\<close> here too.\<close>

definition transcribe_multi ::
  "multi_env \<Rightarrow> multi_request \<Rightarrow> multi_world \<Rightarrow> multi_body response \<times> multi_world"
where
  "transcribe_multi e req w =
     (case map_of MODELS (mreq_model req) of
        None \<Rightarrow>
          (JSONResponse
             [(''error'', ''Invalid model. Choose from: '' @ str_keys (map fst MODELS))] 400, w)
      | Some info \<Rightarrow>
          (let temp_path = temp_path_of e (mreq_filename req);
               w0 = w\<lparr>files := insert temp_path (files w)\<rparr>
           in case write_upload e of
                Some ex \<Rightarrow> (Raised ex, w0)
              | None \<Rightarrow>
                  (let wav_path = wav_path_of e (mreq_filename req);
                       (r, w1) = try_block_multi e req info temp_path wav_path w0;
                       (raised, w2) = cleanup e [temp_path, wav_path] w1
                   in (after_finally raised (except_clause_multi r), w2))))"

section \<open>Example requests\<close>

text \<open>Concrete inputs on which the theorems below are evaluated. Every time in them is a
  dyadic rational with a short significand, hence the exact value of a float.\<close>

definition empty_world :: world where
  "empty_world = \<lparr>files = {}, calls = []\<rparr>"

definition voice_request :: request where
  "voice_request =
     \<lparr>req_filename = ''note.ogg'', req_language = None,
      req_task = ''transcribe'', req_speaker_detection = True\<rparr>"

definition two_turns :: whisper_result where
  "two_turns =
     \<lparr>res_segments = Some
        [\<lparr>raw_start = 0, raw_end = 41 / 32, raw_text = '' Hello there.''\<rparr>,
         \<lparr>raw_start = 5, raw_end = 801 / 128, raw_text = '' Hi.''\<rparr>],
      res_text = Some '' Hello there. Hi.'',
      res_language = Some ''en''\<rparr>"

definition silence :: whisper_result where
  "silence = \<lparr>res_segments = Some [], res_text = Some [], res_language = Some ''en''\<rparr>"

text \<open>A run in which the upload is written, ffmpeg exits with code 0, recognition returns
  \<open>result\<close> and no \<^verbatim>\<open>os.unlink\<close> raises.\<close>

definition decoded_env :: "whisper_result \<Rightarrow> env" where
  "decoded_env result =
     \<lparr>tmp_stem = ''/tmp/tmpab12cd34'',
      write_upload = None,
      ffmpeg_run = Inr \<lparr>returncode = 0, stderr = []\<rparr>,
      ffmpeg_wrote = True,
      model_transcribe = Inr result,
      cuda_available = True,
      unlink_raises = (\<lambda>p. None)\<rparr>"

definition empty_multi_world :: multi_world where
  "empty_multi_world = \<lparr>files = {}, calls = [], loaded_models = Map.empty\<rparr>"

definition tiny_request :: multi_request where
  "tiny_request =
     \<lparr>mreq_filename = ''note.ogg'', mreq_model = ''tiny'',
      mreq_language = None, mreq_task = ''transcribe''\<rparr>"

text \<open>A run of the second service in which the upload is written, no \<^verbatim>\<open>os.unlink\<close>
  raises, and ffmpeg, model loading and recognition do as given.\<close>

definition multi_env_of :: "exn + completed_process \<Rightarrow> exn + nat \<Rightarrow> exn + whisper_result \<Rightarrow> multi_env" where
  "multi_env_of decoded loaded recognised =
     \<lparr>tmp_stem = ''/tmp/tmpab12cd34'',
      write_upload = None,
      ffmpeg_run = decoded,
      ffmpeg_wrote = False,
      model_transcribe = recognised,
      cuda_available = True,
      unlink_raises = (\<lambda>p. None),
      whisper_load = (\<lambda>model_size download_root. loaded)\<rparr>"

section \<open>Properties\<close>

subsection \<open>The speaker loop\<close>

lemma str_nat_1: "str_nat (Suc 0) = ''1''"
  by code_simp

lemma str_nat_2: "str_nat 2 = ''2''"
  by code_simp

lemma speaker_label_cases:
  "''Speaker '' @ str_nat ((i mod 2) + 1) = ''Speaker 1'' \<or>
   ''Speaker '' @ str_nat ((i mod 2) + 1) = ''Speaker 2''"
proof (cases "i mod 2 = 0")
  case True
  then show ?thesis by (simp add: str_nat_1)
next
  case False
  then have "i mod 2 = 1" by presburger
  then have "(i mod 2) + 1 = 2" by simp
  then show ?thesis by (simp only: str_nat_2) simp
qed

lemma speaker_loop_labels:
  assumes "cur = ''Speaker 1'' \<or> cur = ''Speaker 2''"
    and "\<forall>s \<in> set acc. speaker s = ''Speaker 1'' \<or> speaker s = ''Speaker 2''"
  shows "\<forall>s \<in> set (fst (speaker_loop sd i segs (acc, cur, le))).
           speaker s = ''Speaker 1'' \<or> speaker s = ''Speaker 2''"
  using assms
proof (induction segs arbitrary: i acc cur le)
  case Nil
  then show ?case by simp
next
  case (Cons seg segs)
  let ?cur' = "if float_sub (raw_start seg) le > 2 \<and> sd then ''Speaker '' @ str_nat ((i mod 2) + 1) else cur"
  have c: "?cur' = ''Speaker 1'' \<or> ?cur' = ''Speaker 2''"
    using Cons.prems(1) speaker_label_cases [of i] by (cases "float_sub (raw_start seg) le > 2 \<and> sd") simp_all
  have a: "\<forall>s \<in> set (acc @ [\<lparr>speaker = ?cur', seg_text = strip (raw_text seg),
              seg_start = round2 (raw_start seg), seg_end = round2 (raw_end seg)\<rparr>]).
              speaker s = ''Speaker 1'' \<or> speaker s = ''Speaker 2''"
    using Cons.prems(2) c by auto
  show ?case
    using Cons.IH [OF c a, of "i + 1" "raw_end seg"] by (simp add: Let_def)
qed

lemma speaker_loop_fields:
  "map (\<lambda>s. (seg_text s, seg_start s, seg_end s)) (fst (speaker_loop sd i segs (acc, cur, le))) =
   map (\<lambda>s. (seg_text s, seg_start s, seg_end s)) acc @
   map (\<lambda>r. (strip (raw_text r), round2 (raw_start r), round2 (raw_end r))) segs"
  by (induction segs arbitrary: i acc cur le) (simp_all add: Let_def)

lemma speaker_loop_disabled:
  "map speaker (fst (speaker_loop False i segs (acc, cur, le))) =
   map speaker acc @ replicate (length segs) cur"
  by (induction segs arbitrary: i acc le) (simp_all add: Let_def replicate_app_Cons_same)

text \<open>The subtraction rounds: the floats \<^verbatim>\<open>2.02\<close> and \<^verbatim>\<open>0.02\<close> differ by a little more than
  2, and their difference as floats is 2. A segment that starts at \<^verbatim>\<open>2.02\<close> after one that
  ended at \<^verbatim>\<open>0.02\<close> therefore keeps the current label.\<close>

lemma float_sub_rounds:
  "4548635623644201 / 2251799813685248 - 5764607523034235 / 288230376151711744 > (2 :: rat) \<and>
   float_sub (4548635623644201 / 2251799813685248) (5764607523034235 / 288230376151711744) = 2"
  by code_simp

lemma rounded_gap_keeps_label:
  "map speaker
     (format_segments True
        [\<lparr>raw_start = 0, raw_end = 5764607523034235 / 288230376151711744, raw_text = '' one''\<rparr>,
         \<lparr>raw_start = 4548635623644201 / 2251799813685248, raw_end = 3, raw_text = '' two''\<rparr>]) =
   [''Speaker 1'', ''Speaker 1'']"
  by code_simp

text \<open>A gap of more than 2 seconds before an odd index gives the second label.\<close>

lemma gap_at_odd_index_gives_speaker_2:
  "map speaker
     (format_segments True
        [\<lparr>raw_start = 0, raw_end = 1, raw_text = '' one''\<rparr>,
         \<lparr>raw_start = 7 / 2, raw_end = 4, raw_text = '' two''\<rparr>]) =
   [''Speaker 1'', ''Speaker 2'']"
  by code_simp

subsection \<open>The paths through the handlers\<close>

lemma cleanup_calls: "\<exists>us. calls (snd (cleanup e ps w)) = calls w @ map Unlink us"
proof (induction ps arbitrary: w)
  case Nil
  have "calls (snd (cleanup e [] w)) = calls w @ map Unlink []"
    by (simp add: cleanup.simps)
  then show ?case by blast
next
  case (Cons p ps)
  show ?case
  proof (cases "p \<in> files w")
    case False
    then have "cleanup e (p # ps) w = cleanup e ps w"
      by (simp add: cleanup.simps)
    with Cons.IH [of w] show ?thesis by simp
  next
    case True
    show ?thesis
    proof (cases "unlink_raises e p")
      case (Some ex)
      with True have "calls (snd (cleanup e (p # ps) w)) = calls w @ map Unlink [p]"
        by (simp add: cleanup.simps)
      then show ?thesis by blast
    next
      case None
      let ?w' = "w\<lparr>files := files w - {p}, calls := calls w @ [Unlink p]\<rparr>"
      from True None have c: "cleanup e (p # ps) w = cleanup e ps ?w'"
        by (simp add: cleanup.simps)
      from Cons.IH [of ?w'] obtain us where "calls (snd (cleanup e ps ?w')) = calls ?w' @ map Unlink us"
        by blast
      then have "calls (snd (cleanup e (p # ps) w)) = calls w @ map Unlink (p # us)"
        by (simp add: c)
      then show ?thesis by blast
    qed
  qed
qed

lemma cleanup_files:
  assumes "fst (cleanup e ps w) = None"
  shows "files (snd (cleanup e ps w)) = files w - set ps"
  using assms
proof (induction ps arbitrary: w)
  case Nil
  then show ?case by (simp add: cleanup.simps)
next
  case (Cons p ps)
  show ?case
  proof (cases "p \<in> files w")
    case False
    then have c: "cleanup e (p # ps) w = cleanup e ps w"
      by (simp add: cleanup.simps)
    with Cons.prems have "fst (cleanup e ps w) = None" by simp
    from Cons.IH [OF this] c False show ?thesis by auto
  next
    case True
    show ?thesis
    proof (cases "unlink_raises e p")
      case (Some ex)
      with True Cons.prems show ?thesis by (simp add: cleanup.simps)
    next
      case None
      let ?w' = "w\<lparr>files := files w - {p}, calls := calls w @ [Unlink p]\<rparr>"
      from True None have c: "cleanup e (p # ps) w = cleanup e ps ?w'"
        by (simp add: cleanup.simps)
      with Cons.prems have "fst (cleanup e ps ?w') = None" by simp
      from Cons.IH [OF this] c show ?thesis by auto
    qed
  qed
qed

lemma cleanup_no_raise:
  assumes "\<And>p. unlink_raises e p = None"
  shows "fst (cleanup e ps w) = None"
  by (induction ps arbitrary: w) (simp_all add: cleanup.simps assms)

lemma cleanup_raised:
  assumes "fst (cleanup e ps w) = Some ex"
  shows "\<exists>p. unlink_raises e p = Some ex"
  using assms
proof (induction ps arbitrary: w)
  case Nil
  then show ?case by (simp add: cleanup.simps)
next
  case (Cons p ps)
  show ?case
  proof (cases "p \<in> files w")
    case False
    with Cons.prems have "fst (cleanup e ps w) = Some ex"
      by (simp add: cleanup.simps)
    then show ?thesis by (rule Cons.IH)
  next
    case True
    show ?thesis
    proof (cases "unlink_raises e p")
      case (Some ex')
      with True Cons.prems have "ex' = ex" by (simp add: cleanup.simps)
      with Some show ?thesis by blast
    next
      case None
      with True Cons.prems
      have "fst (cleanup e ps (w\<lparr>files := files w - {p}, calls := calls w @ [Unlink p]\<rparr>)) = Some ex"
        by (simp add: cleanup.simps)
      then show ?thesis by (rule Cons.IH)
    qed
  qed
qed

lemma after_finally_Body: "after_finally raised resp = Body b \<longleftrightarrow> raised = None \<and> resp = Body b"
  by (cases raised) (simp_all add: after_finally_def)

lemma after_finally_returned:
  "returned (after_finally raised resp) \<Longrightarrow> after_finally raised resp = resp"
  by (cases raised) (simp_all add: after_finally_def)

lemma after_finally_returned_None: "returned (after_finally raised resp) \<Longrightarrow> raised = None"
  by (cases raised) (simp_all add: after_finally_def)

lemma after_finally_cases:
  "after_finally raised resp = resp \<or> (\<exists>ex. raised = Some ex \<and> after_finally raised resp = Raised ex)"
  by (cases raised) (simp_all add: after_finally_def)

lemma except_clauses_Body: "except_clauses r = Body b \<longleftrightarrow> r = Inr (Body b)"
proof (cases r)
  case (Inl ex)
  then show ?thesis by (cases ex) simp_all
next
  case (Inr resp)
  then show ?thesis by simp
qed

lemma except_clause_multi_Body: "except_clause_multi r = Body b \<longleftrightarrow> r = Inr (Body b)"
  by (cases r) simp_all

text \<open>
  The handlers, once the upload is written, in terms of their three parts.
\<close>

lemma transcribe_written:
  assumes "write_upload e = None"
  shows "transcribe e req w =
     (after_finally
        (fst (cleanup e [temp_path_of e (req_filename req), wav_path_of e (req_filename req)]
           (snd (try_block e req (temp_path_of e (req_filename req)) (wav_path_of e (req_filename req))
              (w\<lparr>files := insert (temp_path_of e (req_filename req)) (files w)\<rparr>)))))
        (except_clauses
           (fst (try_block e req (temp_path_of e (req_filename req)) (wav_path_of e (req_filename req))
              (w\<lparr>files := insert (temp_path_of e (req_filename req)) (files w)\<rparr>)))),
      snd (cleanup e [temp_path_of e (req_filename req), wav_path_of e (req_filename req)]
           (snd (try_block e req (temp_path_of e (req_filename req)) (wav_path_of e (req_filename req))
              (w\<lparr>files := insert (temp_path_of e (req_filename req)) (files w)\<rparr>)))))"
  using assms by (simp add: transcribe_def Let_def split_beta)

lemma transcribe_multi_written:
  assumes "map_of MODELS (mreq_model req) = Some info" and "write_upload e = None"
  shows "transcribe_multi e req w =
     (after_finally
        (fst (cleanup e [temp_path_of e (mreq_filename req), wav_path_of e (mreq_filename req)]
           (snd (try_block_multi e req info (temp_path_of e (mreq_filename req))
              (wav_path_of e (mreq_filename req))
              (w\<lparr>files := insert (temp_path_of e (mreq_filename req)) (files w)\<rparr>)))))
        (except_clause_multi
           (fst (try_block_multi e req info (temp_path_of e (mreq_filename req))
              (wav_path_of e (mreq_filename req))
              (w\<lparr>files := insert (temp_path_of e (mreq_filename req)) (files w)\<rparr>)))),
      snd (cleanup e [temp_path_of e (mreq_filename req), wav_path_of e (mreq_filename req)]
           (snd (try_block_multi e req info (temp_path_of e (mreq_filename req))
              (wav_path_of e (mreq_filename req))
              (w\<lparr>files := insert (temp_path_of e (mreq_filename req)) (files w)\<rparr>)))))"
  using assms by (simp add: transcribe_multi_def Let_def split_beta)

lemma try_block_Body:
  assumes "fst (try_block e req t wv w) = Inr (Body b)"
  shows "\<exists>cp result. ffmpeg_run e = Inr cp \<and> returncode cp = 0 \<and>
           model_transcribe e = Inr result \<and> b = format_response req result"
proof (cases "ffmpeg_run e")
  case (Inl ex)
  with assms show ?thesis by (simp add: try_block_def Let_def)
next
  case (Inr cp)
  show ?thesis
  proof (cases "returncode cp = 0")
    case False
    with Inr assms show ?thesis by (simp add: try_block_def Let_def)
  next
    case True
    show ?thesis
    proof (cases "model_transcribe e")
      case (Inl ex)
      with Inr True assms show ?thesis by (simp add: try_block_def Let_def)
    next
      case model: (Inr result)
      with Inr True assms show ?thesis by (simp add: try_block_def Let_def)
    qed
  qed
qed

text \<open>
  A dict is returned only after ffmpeg exited with code 0 and recognition returned.
\<close>

lemma transcribe_body:
  assumes "fst (transcribe e req w) = Body b"
  shows "\<exists>cp result. ffmpeg_run e = Inr cp \<and> returncode cp = 0 \<and>
           model_transcribe e = Inr result \<and> b = format_response req result"
proof (cases "write_upload e")
  case (Some ex)
  with assms show ?thesis by (simp add: transcribe_def Let_def)
next
  case None
  from assms have "fst (try_block e req (temp_path_of e (req_filename req))
      (wav_path_of e (req_filename req))
      (w\<lparr>files := insert (temp_path_of e (req_filename req)) (files w)\<rparr>)) = Inr (Body b)"
    unfolding transcribe_written [OF None] fst_conv after_finally_Body except_clauses_Body
    by simp
  then show ?thesis by (rule try_block_Body)
qed

lemma try_block_multi_Body:
  assumes "fst (try_block_multi e req info t wv w) = Inr (Body b)"
    and "model_transcribe e = Inr result"
  shows "mb_duration_seconds b =
           (case res_segments result of
              None \<Rightarrow> 0
            | Some segments \<Rightarrow> if segments \<noteq> [] then round2 (raw_end (last segments)) else 0)"
proof (cases "ffmpeg_run e")
  case (Inl ex)
  with assms show ?thesis by (simp add: try_block_multi_def Let_def)
next
  case (Inr cp)
  let ?w1 = "w\<lparr>files := (if ffmpeg_wrote e then insert wv (files w) else files w),
                 calls := calls w @ [Ffmpeg t wv]\<rparr>"
  obtain r w2 where g: "get_model e (mreq_model req) ?w1 = (r, w2)"
    by (cases "get_model e (mreq_model req) ?w1")
  show ?thesis
  proof (cases r)
    case (Inl ex)
    with Inr g assms show ?thesis by (simp add: try_block_multi_def Let_def)
  next
    case loaded: (Inr h)
    with Inr g assms(1) assms(2) have "b =
        \<lparr>mb_text = strip (dict_get (res_text result) []),
         mb_language = dict_get (res_language result) ''unknown'',
         mb_duration_seconds =
           (case res_segments result of
              None \<Rightarrow> 0
            | Some segments \<Rightarrow> if segments \<noteq> [] then round2 (raw_end (last segments)) else 0),
         mb_model = ''whisper-'' @ mreq_model req,
         mb_model_info = info,
         mb_status = ''success''\<rparr>"
      by (simp add: try_block_multi_def Let_def)
    then show ?thesis by simp
  qed
qed

lemma transcribe_multi_body:
  assumes "fst (transcribe_multi e req w) = Body b" and "model_transcribe e = Inr result"
  shows "mb_duration_seconds b =
           (case res_segments result of
              None \<Rightarrow> 0
            | Some segments \<Rightarrow> if segments \<noteq> [] then round2 (raw_end (last segments)) else 0)"
proof (cases "map_of MODELS (mreq_model req)")
  case None
  with assms(1) show ?thesis by (simp add: transcribe_multi_def)
next
  case (Some info)
  show ?thesis
  proof (cases "write_upload e")
    case written: None
    from assms(1) have "fst (try_block_multi e req info (temp_path_of e (mreq_filename req))
        (wav_path_of e (mreq_filename req))
        (w\<lparr>files := insert (temp_path_of e (mreq_filename req)) (files w)\<rparr>)) = Inr (Body b)"
      unfolding transcribe_multi_written [OF Some written] fst_conv after_finally_Body
        except_clause_multi_Body
      by simp
    then show ?thesis using assms(2) by (rule try_block_multi_Body)
  next
    case (Some ex)
    with \<open>map_of MODELS (mreq_model req) = Some info\<close> assms(1) show ?thesis
      by (simp add: transcribe_multi_def Let_def)
  qed
qed

text \<open>
  The answer of a handler, once the upload is written: what the \<^verbatim>\<open>try\<close> block returns, or
  what the \<^verbatim>\<open>except\<close> clauses make of the exception it raises, unless an \<^verbatim>\<open>os.unlink\<close>
  of the \<^verbatim>\<open>finally\<close> clause raises in its turn.
\<close>

lemma transcribe_answer:
  assumes "write_upload e = None"
  shows "fst (transcribe e req w) =
           except_clauses
             (fst (try_block e req (temp_path_of e (req_filename req))
                (wav_path_of e (req_filename req))
                (w\<lparr>files := insert (temp_path_of e (req_filename req)) (files w)\<rparr>))) \<or>
         (\<exists>q x. unlink_raises e q = Some x \<and> fst (transcribe e req w) = Raised x)"
proof -
  let ?t = "temp_path_of e (req_filename req)"
  let ?wv = "wav_path_of e (req_filename req)"
  let ?tb = "try_block e req ?t ?wv (w\<lparr>files := insert ?t (files w)\<rparr>)"
  let ?c = "cleanup e [?t, ?wv] (snd ?tb)"
  let ?resp = "except_clauses (fst ?tb)"
  have f: "fst (transcribe e req w) = after_finally (fst ?c) ?resp"
    unfolding transcribe_written [OF assms] by simp
  from after_finally_cases [of "fst ?c" ?resp] show ?thesis
  proof
    assume "after_finally (fst ?c) ?resp = ?resp"
    with f show ?thesis by simp
  next
    assume "\<exists>ex. fst ?c = Some ex \<and> after_finally (fst ?c) ?resp = Raised ex"
    then obtain x where x: "fst ?c = Some x" and r: "after_finally (fst ?c) ?resp = Raised x"
      by blast
    from cleanup_raised [OF x] obtain q where "unlink_raises e q = Some x"
      by blast
    with f r show ?thesis by auto
  qed
qed

lemma transcribe_multi_answer:
  assumes "map_of MODELS (mreq_model req) = Some info" and "write_upload e = None"
  shows "fst (transcribe_multi e req w) =
           except_clause_multi
             (fst (try_block_multi e req info (temp_path_of e (mreq_filename req))
                (wav_path_of e (mreq_filename req))
                (w\<lparr>files := insert (temp_path_of e (mreq_filename req)) (files w)\<rparr>))) \<or>
         (\<exists>q x. unlink_raises e q = Some x \<and> fst (transcribe_multi e req w) = Raised x)"
proof -
  let ?t = "temp_path_of e (mreq_filename req)"
  let ?wv = "wav_path_of e (mreq_filename req)"
  let ?tb = "try_block_multi e req info ?t ?wv (w\<lparr>files := insert ?t (files w)\<rparr>)"
  let ?c = "cleanup e [?t, ?wv] (snd ?tb)"
  let ?resp = "except_clause_multi (fst ?tb)"
  have f: "fst (transcribe_multi e req w) = after_finally (fst ?c) ?resp"
    unfolding transcribe_multi_written [OF assms] by simp
  from after_finally_cases [of "fst ?c" ?resp] show ?thesis
  proof
    assume "after_finally (fst ?c) ?resp = ?resp"
    with f show ?thesis by simp
  next
    assume "\<exists>ex. fst ?c = Some ex \<and> after_finally (fst ?c) ?resp = Raised ex"
    then obtain x where x: "fst ?c = Some x" and r: "after_finally (fst ?c) ?resp = Raised x"
      by blast
    from cleanup_raised [OF x] obtain q where "unlink_raises e q = Some x"
      by blast
    with f r show ?thesis by auto
  qed
qed

lemma transcribe_try_raises:
  assumes "write_upload e = None"
    and "fst (try_block e req (temp_path_of e (req_filename req)) (wav_path_of e (req_filename req))
           (w\<lparr>files := insert (temp_path_of e (req_filename req)) (files w)\<rparr>)) =
         Inl (OtherException m tb)"
  shows "fst (transcribe e req w) =
           JSONResponse
             [(''text'', ''''), (''status'', ''error''), (''error'', m), (''traceback'', tb)] 500 \<or>
         (\<exists>q x. unlink_raises e q = Some x \<and> fst (transcribe e req w) = Raised x)"
  using transcribe_answer [OF assms(1), of req w] assms(2) by simp

lemma transcribe_multi_try_raises:
  assumes "map_of MODELS (mreq_model req) = Some info" and "write_upload e = None"
    and "fst (try_block_multi e req info (temp_path_of e (mreq_filename req))
           (wav_path_of e (mreq_filename req))
           (w\<lparr>files := insert (temp_path_of e (mreq_filename req)) (files w)\<rparr>)) = Inl ex"
  shows "fst (transcribe_multi e req w) =
           JSONResponse [(''error'', str_exn ex), (''status'', ''error'')] 500 \<or>
         (\<exists>q x. unlink_raises e q = Some x \<and> fst (transcribe_multi e req w) = Raised x)"
  using transcribe_multi_answer [OF assms(1,2), of w] assms(3) by simp

text \<open>
  The calls a \<^verbatim>\<open>try\<close> block adds to the log. If recognition is among them and raises, or
  model loading is among them and raises, the block raises that exception.
\<close>

lemma try_block_calls:
  "\<exists>xs. calls (snd (try_block e req t wv w)) = calls w @ xs \<and>
     (\<forall>p opts ex. ModelTranscribe p opts \<in> set xs \<longrightarrow> model_transcribe e = Inl ex \<longrightarrow>
        fst (try_block e req t wv w) = Inl ex)"
proof (cases "ffmpeg_run e")
  case (Inl ex)
  then have "calls (snd (try_block e req t wv w)) = calls w @ [Ffmpeg t wv]"
    by (simp add: try_block_def Let_def)
  then show ?thesis by fastforce
next
  case (Inr cp)
  show ?thesis
  proof (cases "returncode cp = 0")
    case False
    with Inr have "calls (snd (try_block e req t wv w)) = calls w @ [Ffmpeg t wv]"
      by (simp add: try_block_def Let_def)
    then show ?thesis by fastforce
  next
    case True
    let ?opts = "make_options e (req_task req) (req_language req)"
    show ?thesis
    proof (cases "model_transcribe e")
      case (Inl ex)
      with Inr True
      have "calls (snd (try_block e req t wv w)) = calls w @ [Ffmpeg t wv, ModelTranscribe wv ?opts]"
        and "fst (try_block e req t wv w) = Inl ex"
        by (simp_all add: try_block_def Let_def)
      with Inl show ?thesis by fastforce
    next
      case recognised: (Inr result)
      with Inr True
      have "calls (snd (try_block e req t wv w)) = calls w @ [Ffmpeg t wv, ModelTranscribe wv ?opts]"
        by (simp add: try_block_def Let_def)
      with recognised show ?thesis by fastforce
    qed
  qed
qed

lemma try_block_multi_calls:
  "\<exists>xs. calls (snd (try_block_multi e req info t wv w)) = calls w @ xs \<and>
     (\<forall>p opts ex. ModelTranscribe p opts \<in> set xs \<longrightarrow> model_transcribe e = Inl ex \<longrightarrow>
        fst (try_block_multi e req info t wv w) = Inl ex) \<and>
     (\<forall>m root ex. LoadModel m root \<in> set xs \<longrightarrow> whisper_load e m root = Inl ex \<longrightarrow>
        fst (try_block_multi e req info t wv w) = Inl ex)"
proof (cases "ffmpeg_run e")
  case (Inl ex)
  then have "calls (snd (try_block_multi e req info t wv w)) = calls w @ [Ffmpeg t wv]"
    by (simp add: try_block_multi_def Let_def)
  then show ?thesis by fastforce
next
  case (Inr cp)
  let ?m = "mreq_model req"
  let ?w1 = "w\<lparr>files := (if ffmpeg_wrote e then insert wv (files w) else files w),
                 calls := calls w @ [Ffmpeg t wv]\<rparr>"
  let ?opts = "make_options e (mreq_task req) (mreq_language req)"
  let ?root = "if ''/models/whisper-'' @ ?m @ ''.pt'' \<in> files ?w1 then Some ''/models'' else None"
  show ?thesis
  proof (cases "loaded_models w ?m")
    case (Some h)
    then have g: "get_model e ?m ?w1 = (Inr h, ?w1)"
      by (simp add: get_model_def)
    show ?thesis
    proof (cases "model_transcribe e")
      case (Inl ex)
      with Inr g
      have "calls (snd (try_block_multi e req info t wv w)) =
              calls w @ [Ffmpeg t wv, ModelTranscribe wv ?opts]"
        and "fst (try_block_multi e req info t wv w) = Inl ex"
        by (simp_all add: try_block_multi_def Let_def)
      with Inl show ?thesis by fastforce
    next
      case recognised: (Inr result)
      with Inr g
      have "calls (snd (try_block_multi e req info t wv w)) =
              calls w @ [Ffmpeg t wv, ModelTranscribe wv ?opts]"
        by (simp add: try_block_multi_def Let_def)
      with recognised show ?thesis by fastforce
    qed
  next
    case None
    show ?thesis
    proof (cases "whisper_load e ?m ?root")
      case (Inl lx)
      with None have g: "get_model e ?m ?w1 = (Inl lx, ?w1\<lparr>calls := calls ?w1 @ [LoadModel ?m ?root]\<rparr>)"
        by (simp add: get_model_def Let_def)
      with Inr
      have "calls (snd (try_block_multi e req info t wv w)) =
              calls w @ [Ffmpeg t wv, LoadModel ?m ?root]"
        and "fst (try_block_multi e req info t wv w) = Inl lx"
        by (simp_all add: try_block_multi_def Let_def)
      with Inl show ?thesis by fastforce
    next
      case loaded: (Inr h)
      let ?w2 = "?w1\<lparr>calls := calls ?w1 @ [LoadModel ?m ?root],
                     loaded_models := (loaded_models ?w1)(?m \<mapsto> h)\<rparr>"
      from None loaded have g: "get_model e ?m ?w1 = (Inr h, ?w2)"
        by (simp add: get_model_def Let_def)
      show ?thesis
      proof (cases "model_transcribe e")
        case (Inl ex)
        with Inr g
        have "calls (snd (try_block_multi e req info t wv w)) =
                calls w @ [Ffmpeg t wv, LoadModel ?m ?root, ModelTranscribe wv ?opts]"
          and "fst (try_block_multi e req info t wv w) = Inl ex"
          by (simp_all add: try_block_multi_def Let_def)
        with Inl loaded show ?thesis by fastforce
      next
        case recognised: (Inr result)
        with Inr g
        have "calls (snd (try_block_multi e req info t wv w)) =
                calls w @ [Ffmpeg t wv, LoadModel ?m ?root, ModelTranscribe wv ?opts]"
          by (simp add: try_block_multi_def Let_def)
        with recognised loaded show ?thesis by fastforce
      qed
    qed
  qed
qed

text \<open>
  The calls a request adds to the log: those of its \<^verbatim>\<open>try\<close> block, then those of
  \<^verbatim>\<open>os.unlink\<close>; none when the upload is not written or the model name is unknown.
\<close>

lemma transcribe_new_calls:
  assumes "c \<in> set (drop (length (calls w)) (calls (snd (transcribe e req w))))"
    and "\<And>q. c \<noteq> Unlink q"
  shows "write_upload e = None \<and>
     (\<exists>xs. calls (snd (try_block e req (temp_path_of e (req_filename req))
                 (wav_path_of e (req_filename req))
                 (w\<lparr>files := insert (temp_path_of e (req_filename req)) (files w)\<rparr>))) =
            calls w @ xs \<and> c \<in> set xs)"
proof (cases "write_upload e")
  case (Some x)
  then have "calls (snd (transcribe e req w)) = calls w"
    by (simp add: transcribe_def Let_def)
  with assms(1) show ?thesis by simp
next
  case None
  let ?t = "temp_path_of e (req_filename req)"
  let ?wv = "wav_path_of e (req_filename req)"
  let ?w0 = "w\<lparr>files := insert ?t (files w)\<rparr>"
  let ?tb = "try_block e req ?t ?wv ?w0"
  from try_block_calls [of e req ?t ?wv ?w0] obtain xs
    where xs: "calls (snd ?tb) = calls w @ xs"
    by auto
  from cleanup_calls [of e "[?t, ?wv]" "snd ?tb"] obtain us
    where us: "calls (snd (cleanup e [?t, ?wv] (snd ?tb))) = calls (snd ?tb) @ map Unlink us"
    by blast
  have "calls (snd (transcribe e req w)) = calls w @ xs @ map Unlink us"
    unfolding transcribe_written [OF None] snd_conv us xs by simp
  then have "drop (length (calls w)) (calls (snd (transcribe e req w))) = xs @ map Unlink us"
    by simp
  with assms have "c \<in> set xs"
    by auto
  with None xs show ?thesis by blast
qed

lemma transcribe_multi_new_calls:
  assumes "c \<in> set (drop (length (calls w)) (calls (snd (transcribe_multi e req w))))"
    and "\<And>q. c \<noteq> Unlink q"
  shows "\<exists>info. map_of MODELS (mreq_model req) = Some info \<and> write_upload e = None \<and>
     (\<exists>xs. calls (snd (try_block_multi e req info (temp_path_of e (mreq_filename req))
                 (wav_path_of e (mreq_filename req))
                 (w\<lparr>files := insert (temp_path_of e (mreq_filename req)) (files w)\<rparr>))) =
            calls w @ xs \<and> c \<in> set xs)"
proof (cases "map_of MODELS (mreq_model req)")
  case None
  then have "calls (snd (transcribe_multi e req w)) = calls w"
    by (simp add: transcribe_multi_def)
  with assms(1) show ?thesis by simp
next
  case (Some info)
  show ?thesis
  proof (cases "write_upload e")
    case failed: (Some x)
    with Some have "calls (snd (transcribe_multi e req w)) = calls w"
      by (simp add: transcribe_multi_def Let_def)
    with assms(1) show ?thesis by simp
  next
    case None
    let ?t = "temp_path_of e (mreq_filename req)"
    let ?wv = "wav_path_of e (mreq_filename req)"
    let ?w0 = "w\<lparr>files := insert ?t (files w)\<rparr>"
    let ?tb = "try_block_multi e req info ?t ?wv ?w0"
    from try_block_multi_calls [of e req info ?t ?wv ?w0] obtain xs
      where xs: "calls (snd ?tb) = calls w @ xs"
      by auto
    from cleanup_calls [of e "[?t, ?wv]" "snd ?tb"] obtain us
      where us: "calls (snd (cleanup e [?t, ?wv] (snd ?tb))) = calls (snd ?tb) @ map Unlink us"
      by blast
    have "calls (snd (transcribe_multi e req w)) = calls w @ xs @ map Unlink us"
      unfolding transcribe_multi_written [OF Some None] snd_conv us xs by simp
    then have "drop (length (calls w)) (calls (snd (transcribe_multi e req w))) = xs @ map Unlink us"
      by simp
    with assms have "c \<in> set xs"
      by auto
    with Some None xs show ?thesis by blast
  qed
qed

subsection \<open>Speaker labels\<close>

text \<open>
  C1. The claim: for raw segments with start times 0, 1, 5, 6 and end times 1, 2, 5.5, 6.5
  and speaker detection enabled, the segments at indices 0 and 1 are labelled
  \<^verbatim>\<open>Speaker 1\<close> and those at indices 2 and 3 \<^verbatim>\<open>Speaker 2\<close>.

  The code does not do that. The gap before index 2 is 3 seconds, so the branch of line 114
  is taken, but the label it assigns is \<^verbatim>\<open>f"Speaker {(i % 2) + 1}"\<close> with \<open>i = 2\<close>, which is
  \<^verbatim>\<open>Speaker 1\<close> again: all four segments are labelled \<^verbatim>\<open>Speaker 1\<close>, although the comment
  of line 113 says that a gap longer than 2 seconds is taken for a new speaker.
\<close>

theorem gap_at_even_index_keeps_speaker_1:
  "map speaker
     (format_segments True
        [\<lparr>raw_start = 0, raw_end = 1, raw_text = '' one''\<rparr>,
         \<lparr>raw_start = 1, raw_end = 2, raw_text = '' two''\<rparr>,
         \<lparr>raw_start = 5, raw_end = 11 / 2, raw_text = '' three''\<rparr>,
         \<lparr>raw_start = 6, raw_end = 13 / 2, raw_text = '' four''\<rparr>]) =
   [''Speaker 1'', ''Speaker 1'', ''Speaker 1'', ''Speaker 1'']"
  by code_simp

text \<open>
  C9. In every successful response, each segment's speaker label is \<^verbatim>\<open>Speaker 1\<close> or
  \<^verbatim>\<open>Speaker 2\<close>, and \<^verbatim>\<open>speakers_detected\<close> is at most 2, whatever the number of segments
  and gaps.
\<close>

theorem labels_are_speaker_1_or_2:
  assumes "fst (transcribe e req w) = Body b"
  shows "(\<forall>s \<in> set (b_segments b). speaker s = ''Speaker 1'' \<or> speaker s = ''Speaker 2'') \<and>
         b_speakers_detected b \<le> 2"
proof -
  from transcribe_body [OF assms] obtain result where b: "b = format_response req result"
    by blast
  let ?segs = "b_segments b"
  have segs: "?segs = format_segments (req_speaker_detection req) (dict_get (res_segments result) [])"
    by (simp add: b format_response_def Let_def)
  have labels: "\<forall>s \<in> set ?segs. speaker s = ''Speaker 1'' \<or> speaker s = ''Speaker 2''"
    unfolding segs format_segments_def
    by (rule speaker_loop_labels) simp_all
  then have "set (map speaker ?segs) \<subseteq> {''Speaker 1'', ''Speaker 2''}"
    by auto
  then have "card (set (map speaker ?segs)) \<le> card {''Speaker 1'', ''Speaker 2''}"
    by (intro card_mono) simp_all
  then have "length (remdups (map speaker ?segs)) \<le> 2"
    by (simp add: length_remdups_card_conv)
  moreover have "b_speakers_detected b =
      (if req_speaker_detection req then length (remdups (map speaker ?segs)) else 1)"
    by (simp add: b format_response_def Let_def)
  ultimately have "b_speakers_detected b \<le> 2"
    by simp
  with labels show ?thesis by simp
qed

theorem labels_are_speaker_1_or_2_witness:
  "fst (transcribe (decoded_env two_turns) voice_request empty_world) =
     Body (format_response voice_request two_turns) \<and>
   map speaker (b_segments (format_response voice_request two_turns)) =
     [''Speaker 1'', ''Speaker 2''] \<and>
   b_speakers_detected (format_response voice_request two_turns) \<le> 2"
proof -
  have h: "fst (transcribe (decoded_env two_turns) voice_request empty_world) =
             Body (format_response voice_request two_turns)"
    by code_simp
  have l: "map speaker (b_segments (format_response voice_request two_turns)) =
             [''Speaker 1'', ''Speaker 2'']"
    by code_simp
  from labels_are_speaker_1_or_2 [OF h] h l show ?thesis by simp
qed

text \<open>
  C2. The claim: with speaker detection disabled, every output segment carries the same
  fixed label, and the reported speaker count is 1 for a non-empty segment sequence and 0
  for an empty one.

  The second half fails on the empty sequence: line 133 reports
  \<^verbatim>\<open>len(set(...)) if speaker_detection else 1\<close>, which is 1 whenever detection is disabled.
  First the failing input, then the claim as the code has it: every label is
  \<^verbatim>\<open>Speaker 1\<close> and the count is 1, for every segment sequence.
\<close>

theorem disabled_detection_one_label:
  assumes "\<not> req_speaker_detection req" and "fst (transcribe e req w) = Body b"
  shows "(\<forall>s \<in> set (b_segments b). speaker s = ''Speaker 1'') \<and> b_speakers_detected b = 1"
proof -
  from transcribe_body [OF assms(2)] obtain result where b: "b = format_response req result"
    by blast
  have "map speaker (b_segments b) =
          replicate (length (dict_get (res_segments result) [])) ''Speaker 1''"
    using assms(1) speaker_loop_disabled [of 0 _ "[]" "''Speaker 1''" 0]
    by (simp add: b format_response_def format_segments_def Let_def)
  then have "set (map speaker (b_segments b)) \<subseteq> {''Speaker 1''}"
    by (simp add: set_replicate_conv_if)
  then have "\<forall>s \<in> set (b_segments b). speaker s = ''Speaker 1''"
    by auto
  moreover have "b_speakers_detected b = 1"
    using assms(1) by (simp add: b format_response_def Let_def)
  ultimately show ?thesis by simp
qed

theorem disabled_detection_one_label_witness:
  "\<not> req_speaker_detection (voice_request\<lparr>req_speaker_detection := False\<rparr>) \<and>
   fst (transcribe (decoded_env two_turns) (voice_request\<lparr>req_speaker_detection := False\<rparr>)
          empty_world) =
     Body (format_response (voice_request\<lparr>req_speaker_detection := False\<rparr>) two_turns) \<and>
   map speaker
     (b_segments (format_response (voice_request\<lparr>req_speaker_detection := False\<rparr>) two_turns)) =
     [''Speaker 1'', ''Speaker 1''] \<and>
   b_speakers_detected (format_response (voice_request\<lparr>req_speaker_detection := False\<rparr>) two_turns) = 1"
proof -
  let ?req = "voice_request\<lparr>req_speaker_detection := False\<rparr>"
  have d: "\<not> req_speaker_detection ?req"
    by simp
  have h: "fst (transcribe (decoded_env two_turns) ?req empty_world) =
             Body (format_response ?req two_turns)"
    by code_simp
  have l: "map speaker (b_segments (format_response ?req two_turns)) =
             [''Speaker 1'', ''Speaker 1'']"
    by code_simp
  from disabled_detection_one_label [OF d h] d h l show ?thesis by simp
qed

theorem disabled_detection_empty_count_counterexample:
  "fst (transcribe (decoded_env silence) (voice_request\<lparr>req_speaker_detection := False\<rparr>)
          empty_world) =
     Body \<lparr>b_text = [], b_language = ''en'', b_duration_seconds = 0, b_segments = [],
           b_status = ''success'', b_model = ''whisper-base'', b_task = ''transcribe'',
           b_speakers_detected = 1\<rparr>"
  by code_simp

subsection \<open>The response after recognition\<close>

lemma format_response_fields:
  "map (\<lambda>s. (seg_text s, seg_start s, seg_end s)) (b_segments (format_response req result)) =
   map (\<lambda>r. (strip (raw_text r), round2 (raw_start r), round2 (raw_end r)))
     (dict_get (res_segments result) [])"
  using speaker_loop_fields [of "req_speaker_detection req" 0 "dict_get (res_segments result) []" "[]" "''Speaker 1''" 0]
  by (simp add: format_response_def format_segments_def Let_def)

lemma format_response_duration:
  "b_duration_seconds (format_response req result) =
     (if dict_get (res_segments result) [] = [] then 0
      else round2 (raw_end (last (dict_get (res_segments result) []))))"
  by (simp add: format_response_def Let_def)

lemma map_fields_last:
  assumes "map f xs = map g ys" and "ys \<noteq> []"
  shows "xs \<noteq> [] \<and> f (last xs) = g (last ys)"
proof -
  from assms have ne: "xs \<noteq> []" by auto
  have "f (last xs) = last (map f xs)" using ne by (simp add: last_map)
  also have "\<dots> = last (map g ys)" using assms(1) by simp
  also have "\<dots> = g (last ys)" using assms(2) by (simp add: last_map)
  finally show ?thesis using ne by simp
qed

lemma format_response_duration_last:
  "b_duration_seconds (format_response req result) =
     (if b_segments (format_response req result) = [] then 0
      else seg_end (last (b_segments (format_response req result))))"
proof (cases "dict_get (res_segments result) [] = []")
  case True
  with format_response_fields [of req result]
  have "b_segments (format_response req result) = []" by simp
  with True show ?thesis by (simp add: format_response_duration)
next
  case False
  from map_fields_last [OF format_response_fields False, of req]
  have ne: "b_segments (format_response req result) \<noteq> []"
    and l: "seg_end (last (b_segments (format_response req result))) =
          round2 (raw_end (last (dict_get (res_segments result) [])))"
    by simp_all
  from False ne l show ?thesis by (simp add: format_response_duration)
qed

lemma transcribe_body_result:
  assumes "fst (transcribe e req w) = Body b" and "model_transcribe e = Inr result"
  shows "b = format_response req result"
proof -
  from transcribe_body [OF assms(1)] obtain cp result'
    where "model_transcribe e = Inr result'" and "b = format_response req result'"
    by blast
  with assms(2) show ?thesis by simp
qed

text \<open>
  C6. In every successful response of either service, \<^verbatim>\<open>duration_seconds\<close> is the end time
  of the last raw segment rounded to two decimal places when recognition returned at least
  one segment, and 0 when it returned none (or no \<^verbatim>\<open>segments\<close> key). In the first service
  this is also the \<^verbatim>\<open>end\<close> of the last segment of the response.
\<close>

theorem duration_seconds_is_rounded_last_end:
  "(fst (transcribe e req w) = Body b \<and> model_transcribe e = Inr result \<longrightarrow>
      b_duration_seconds b =
        (if dict_get (res_segments result) [] = [] then 0
         else round2 (raw_end (last (dict_get (res_segments result) [])))) \<and>
      b_duration_seconds b = (if b_segments b = [] then 0 else seg_end (last (b_segments b)))) \<and>
   (fst (transcribe_multi me mreq mw) = Body mb \<and> model_transcribe me = Inr mresult \<longrightarrow>
      mb_duration_seconds mb =
        (if dict_get (res_segments mresult) [] = [] then 0
         else round2 (raw_end (last (dict_get (res_segments mresult) [])))))"
proof (intro conjI impI)
  assume a: "fst (transcribe e req w) = Body b \<and> model_transcribe e = Inr result"
  then have b: "b = format_response req result"
    using transcribe_body_result [of e req w b result] by simp
  show "b_duration_seconds b =
        (if dict_get (res_segments result) [] = [] then 0
         else round2 (raw_end (last (dict_get (res_segments result) []))))"
    unfolding b by (rule format_response_duration)
  show "b_duration_seconds b = (if b_segments b = [] then 0 else seg_end (last (b_segments b)))"
    unfolding b by (rule format_response_duration_last)
next
  assume a: "fst (transcribe_multi me mreq mw) = Body mb \<and> model_transcribe me = Inr mresult"
  then have d: "mb_duration_seconds mb =
           (case res_segments mresult of
              None \<Rightarrow> 0
            | Some segments \<Rightarrow> if segments \<noteq> [] then round2 (raw_end (last segments)) else 0)"
    using transcribe_multi_body [of me mreq mw mb mresult] by simp
  show "mb_duration_seconds mb =
        (if dict_get (res_segments mresult) [] = [] then 0
         else round2 (raw_end (last (dict_get (res_segments mresult) []))))"
    unfolding d by (cases "res_segments mresult") (simp_all add: dict_get_def)
qed

theorem duration_seconds_is_rounded_last_end_witness:
  "fst (transcribe (decoded_env two_turns) voice_request empty_world) =
     Body (format_response voice_request two_turns) \<and>
   b_duration_seconds (format_response voice_request two_turns) = 313 / 50 \<and>
   seg_end (last (b_segments (format_response voice_request two_turns))) = 313 / 50 \<and>
   fst (transcribe_multi
          (multi_env_of (Inr \<lparr>returncode = 0, stderr = []\<rparr>) (Inr 7) (Inr two_turns))
          tiny_request empty_multi_world) =
     Body \<lparr>mb_text = ''Hello there. Hi.'', mb_language = ''en'', mb_duration_seconds = 313 / 50,
           mb_model = ''whisper-tiny'',
           mb_model_info =
             \<lparr>mi_size = ''tiny'', mi_speed = ''fastest'', mi_accuracy = ''basic'', mi_vram = ''1GB''\<rparr>,
           mb_status = ''success''\<rparr>"
proof -
  let ?me = "multi_env_of (Inr \<lparr>returncode = 0, stderr = []\<rparr>) (Inr 7) (Inr two_turns)"
  let ?mb = "\<lparr>mb_text = ''Hello there. Hi.'', mb_language = ''en'', mb_duration_seconds = 313 / 50,
           mb_model = ''whisper-tiny'',
           mb_model_info =
             \<lparr>mi_size = ''tiny'', mi_speed = ''fastest'', mi_accuracy = ''basic'', mi_vram = ''1GB''\<rparr>,
           mb_status = ''success''\<rparr>"
  have h: "fst (transcribe (decoded_env two_turns) voice_request empty_world) =
             Body (format_response voice_request two_turns)"
    by code_simp
  have r: "model_transcribe (decoded_env two_turns) = Inr two_turns"
    by (simp add: decoded_env_def)
  have mh: "fst (transcribe_multi ?me tiny_request empty_multi_world) = Body ?mb"
    by code_simp
  have mr: "model_transcribe ?me = Inr two_turns"
    by (simp add: multi_env_of_def)
  have v: "(if dict_get (res_segments two_turns) [] = [] then 0
            else round2 (raw_end (last (dict_get (res_segments two_turns) [])))) = 313 / 50"
    by code_simp
  have ne: "b_segments (format_response voice_request two_turns) \<noteq> []"
    by code_simp
  note T = duration_seconds_is_rounded_last_end
      [of "decoded_env two_turns" voice_request empty_world
          "format_response voice_request two_turns" two_turns
          ?me tiny_request empty_multi_world ?mb two_turns]
  from T h r have d: "b_duration_seconds (format_response voice_request two_turns) =
      (if dict_get (res_segments two_turns) [] = [] then 0
       else round2 (raw_end (last (dict_get (res_segments two_turns) []))))"
    and l: "b_duration_seconds (format_response voice_request two_turns) =
      (if b_segments (format_response voice_request two_turns) = [] then 0
       else seg_end (last (b_segments (format_response voice_request two_turns))))"
    by blast+
  from d v have d': "b_duration_seconds (format_response voice_request two_turns) = 313 / 50"
    by simp
  from l ne d' have l': "seg_end (last (b_segments (format_response voice_request two_turns))) = 313 / 50"
    by simp
  from h mh d' l' show ?thesis by simp
qed

text \<open>
  C10. In every successful response, the segments are the raw recognition segments in
  their order, one for one: the text of each is the raw text with \<^verbatim>\<open>strip()\<close> applied, and
  its start and end are the raw start and end rounded to two decimal places.
\<close>

theorem segments_stripped_rounded_in_order:
  assumes "fst (transcribe e req w) = Body b" and "model_transcribe e = Inr result"
  shows "map (\<lambda>s. (seg_text s, seg_start s, seg_end s)) (b_segments b) =
         map (\<lambda>r. (strip (raw_text r), round2 (raw_start r), round2 (raw_end r)))
           (dict_get (res_segments result) [])"
  unfolding transcribe_body_result [OF assms] by (rule format_response_fields)

theorem segments_stripped_rounded_in_order_witness:
  "fst (transcribe (decoded_env two_turns) voice_request empty_world) =
     Body (format_response voice_request two_turns) \<and>
   model_transcribe (decoded_env two_turns) = Inr two_turns \<and>
   map (\<lambda>s. (seg_text s, seg_start s, seg_end s))
     (b_segments (format_response voice_request two_turns)) =
     [(''Hello there.'', 0, 32 / 25), (''Hi.'', 5, 313 / 50)]"
proof -
  have h: "fst (transcribe (decoded_env two_turns) voice_request empty_world) =
             Body (format_response voice_request two_turns)"
    by code_simp
  have r: "model_transcribe (decoded_env two_turns) = Inr two_turns"
    by (simp add: decoded_env_def)
  have v: "map (\<lambda>r. (strip (raw_text r), round2 (raw_start r), round2 (raw_end r)))
             (dict_get (res_segments two_turns) []) =
           [(''Hello there.'', 0, 32 / 25), (''Hi.'', 5, 313 / 50)]"
    by code_simp
  from segments_stripped_rounded_in_order [OF h r] v h r show ?thesis by simp
qed

subsection \<open>Temporary files\<close>

lemma try_block_files:
  "files (snd (try_block e req t wv w)) = (if ffmpeg_wrote e then insert wv (files w) else files w)"
  by (simp add: try_block_def Let_def split: sum.splits)

lemma get_model_files: "files (snd (get_model e m w)) = files w"
  by (simp add: get_model_def Let_def split: option.splits sum.splits)

lemma try_block_multi_files:
  "files (snd (try_block_multi e req info t wv w)) =
     (if ffmpeg_wrote e then insert wv (files w) else files w)"
proof (cases "ffmpeg_run e")
  case (Inl ex)
  then show ?thesis by (simp add: try_block_multi_def Let_def)
next
  case (Inr cp)
  let ?w1 = "w\<lparr>files := (if ffmpeg_wrote e then insert wv (files w) else files w),
                 calls := calls w @ [Ffmpeg t wv]\<rparr>"
  obtain r w2 where g: "get_model e (mreq_model req) ?w1 = (r, w2)"
    by (cases "get_model e (mreq_model req) ?w1")
  have "files w2 = files ?w1"
    using get_model_files [of e "mreq_model req" ?w1] g by simp
  with Inr g show ?thesis
    by (simp add: try_block_multi_def Let_def split: sum.splits)
qed

lemma returned_written: "returned (fst (transcribe e req w)) \<Longrightarrow> write_upload e = None"
  by (cases "write_upload e") (simp_all add: transcribe_def Let_def)

lemma returned_written_multi:
  assumes "map_of MODELS (mreq_model req) = Some info"
    and "returned (fst (transcribe_multi e req w))"
  shows "write_upload e = None"
  using assms by (cases "write_upload e") (simp_all add: transcribe_multi_def Let_def)

text \<open>
  Whenever a handler returns a response, whichever it is (the success dict, the answer to a
  failed conversion, to a timeout or to any exception caught by an \<^verbatim>\<open>except\<close> clause), both
  temporary files are gone and nothing else in the file system has changed: the
  \<^verbatim>\<open>finally\<close> clause does its work on every path that enters the \<^verbatim>\<open>try\<close> and on which
  no \<^verbatim>\<open>os.unlink\<close> raises.
\<close>

lemma transcribe_files:
  assumes "returned (fst (transcribe e req w))"
  shows "files (snd (transcribe e req w)) =
     files w - {temp_path_of e (req_filename req), wav_path_of e (req_filename req)}"
proof -
  let ?t = "temp_path_of e (req_filename req)"
  let ?wv = "wav_path_of e (req_filename req)"
  let ?w0 = "w\<lparr>files := insert ?t (files w)\<rparr>"
  let ?w1 = "snd (try_block e req ?t ?wv ?w0)"
  note written = returned_written [OF assms]
  have f1: "files ?w1 = (if ffmpeg_wrote e then insert ?wv (insert ?t (files w)) else insert ?t (files w))"
    using try_block_files [of e req ?t ?wv ?w0] by simp
  from assms have "fst (cleanup e [?t, ?wv] ?w1) = None"
    unfolding transcribe_written [OF written] fst_conv by (rule after_finally_returned_None)
  then have "files (snd (cleanup e [?t, ?wv] ?w1)) = files ?w1 - set [?t, ?wv]"
    by (rule cleanup_files)
  moreover have "snd (transcribe e req w) = snd (cleanup e [?t, ?wv] ?w1)"
    unfolding transcribe_written [OF written] by simp
  ultimately have "files (snd (transcribe e req w)) = files ?w1 - set [?t, ?wv]"
    by simp
  also have "\<dots> = files w - {?t, ?wv}"
    unfolding f1 by (cases "ffmpeg_wrote e") auto
  finally show ?thesis .
qed

lemma transcribe_multi_files:
  assumes "map_of MODELS (mreq_model req) = Some info"
    and "returned (fst (transcribe_multi e req w))"
  shows "files (snd (transcribe_multi e req w)) =
     files w - {temp_path_of e (mreq_filename req), wav_path_of e (mreq_filename req)}"
proof -
  let ?t = "temp_path_of e (mreq_filename req)"
  let ?wv = "wav_path_of e (mreq_filename req)"
  let ?w0 = "w\<lparr>files := insert ?t (files w)\<rparr>"
  let ?w1 = "snd (try_block_multi e req info ?t ?wv ?w0)"
  note written = returned_written_multi [OF assms]
  have f1: "files ?w1 = (if ffmpeg_wrote e then insert ?wv (insert ?t (files w)) else insert ?t (files w))"
    using try_block_multi_files [of e req info ?t ?wv ?w0] by simp
  from assms(2) have "fst (cleanup e [?t, ?wv] ?w1) = None"
    unfolding transcribe_multi_written [OF assms(1) written] fst_conv
    by (rule after_finally_returned_None)
  then have "files (snd (cleanup e [?t, ?wv] ?w1)) = files ?w1 - set [?t, ?wv]"
    by (rule cleanup_files)
  moreover have "snd (transcribe_multi e req w) = snd (cleanup e [?t, ?wv] ?w1)"
    unfolding transcribe_multi_written [OF assms(1) written] by simp
  ultimately have "files (snd (transcribe_multi e req w)) = files ?w1 - set [?t, ?wv]"
    by simp
  also have "\<dots> = files w - {?t, ?wv}"
    unfolding f1 by (cases "ffmpeg_wrote e") auto
  finally show ?thesis .
qed

lemma returned_response_has_no_temp_files:
  "returned (fst (transcribe (decoded_env two_turns) voice_request
                    \<lparr>files = {''/models/whisper-tiny.pt''}, calls = []\<rparr>)) \<and>
   files (snd (transcribe (decoded_env two_turns) voice_request
                 \<lparr>files = {''/models/whisper-tiny.pt''}, calls = []\<rparr>)) =
     {''/models/whisper-tiny.pt''}"
  by code_simp

text \<open>
  C5. The claim: on every exit path of a request (success, conversion failure, timeout or
  any internal error) both temporary files of the request, the uploaded bytes and the
  converted audio, are deleted before the response is returned.

  The code misses one case. \<^verbatim>\<open>NamedTemporaryFile(suffix=suffix, delete=False)\<close> and
  \<^verbatim>\<open>f.write(audio_bytes)\<close> stand before the \<^verbatim>\<open>try\<close> (lines 71 to 73, and 133 to 135 of
  the second file): when the write raises, for want of space say, the exception leaves the
  handler, the \<^verbatim>\<open>finally\<close> clause of lines 152 to 156 is never entered, and the file of
  the uploaded bytes stays. The theorem evaluates both handlers on that path.
\<close>

theorem failed_write_leaves_temp_file:
  "fst (transcribe
          ((decoded_env two_turns)
             \<lparr>write_upload :=
                Some (OtherException ''[Errno 28] No space left on device''
                        ''Traceback (most recent call last): ...'')\<rparr>)
          voice_request empty_world) =
     Raised (OtherException ''[Errno 28] No space left on device''
               ''Traceback (most recent call last): ...'') \<and>
   files (snd (transcribe
          ((decoded_env two_turns)
             \<lparr>write_upload :=
                Some (OtherException ''[Errno 28] No space left on device''
                        ''Traceback (most recent call last): ...'')\<rparr>)
          voice_request empty_world)) =
     {''/tmp/tmpab12cd34.ogg''} \<and>
   fst (transcribe_multi
          ((multi_env_of (Inr \<lparr>returncode = 0, stderr = []\<rparr>) (Inr 7) (Inr two_turns))
             \<lparr>write_upload :=
                Some (OtherException ''[Errno 28] No space left on device''
                        ''Traceback (most recent call last): ...'')\<rparr>)
          tiny_request empty_multi_world) =
     Raised (OtherException ''[Errno 28] No space left on device''
               ''Traceback (most recent call last): ...'') \<and>
   files (snd (transcribe_multi
          ((multi_env_of (Inr \<lparr>returncode = 0, stderr = []\<rparr>) (Inr 7) (Inr two_turns))
             \<lparr>write_upload :=
                Some (OtherException ''[Errno 28] No space left on device''
                        ''Traceback (most recent call last): ...'')\<rparr>)
          tiny_request empty_multi_world)) =
     {''/tmp/tmpab12cd34.ogg''}"
  by code_simp

text \<open>
  A second path of the same kind: an \<^verbatim>\<open>os.unlink\<close> that raises inside the \<^verbatim>\<open>finally\<close>
  clause leaves the file it was called on, and the one after it.
\<close>

lemma failed_unlink_leaves_wav_file:
  "fst (transcribe
          ((decoded_env two_turns)
             \<lparr>unlink_raises :=
                (\<lambda>p. Some (OtherException ''[Errno 13] Permission denied''
                              ''Traceback (most recent call last): ...''))\<rparr>)
          voice_request empty_world) =
     Raised (OtherException ''[Errno 13] Permission denied''
               ''Traceback (most recent call last): ...'') \<and>
   files (snd (transcribe
          ((decoded_env two_turns)
             \<lparr>unlink_raises :=
                (\<lambda>p. Some (OtherException ''[Errno 13] Permission denied''
                              ''Traceback (most recent call last): ...''))\<rparr>)
          voice_request empty_world)) =
     {''/tmp/tmpab12cd34.ogg'', ''/tmp/tmpab12cd34_processed.wav''}"
  by code_simp

subsection \<open>Failures of the decode step and of recognition\<close>

text \<open>
  What the first service does when ffmpeg times out or exits with an error code: the
  answers the two claims below describe.
\<close>

lemma single_timeout_answers_408:
  assumes "write_upload e = None" and "ffmpeg_run e = Inl (TimeoutExpired m tb)"
  shows "fst (transcribe e req w) =
           JSONResponse
             [(''text'', ''''),
              (''status'', ''error''),
              (''error'', ''Audio processing timed out (file too large?)'')] 408 \<or>
         (\<exists>q x. unlink_raises e q = Some x \<and> fst (transcribe e req w) = Raised x)"
proof -
  have "fst (try_block e req (temp_path_of e (req_filename req)) (wav_path_of e (req_filename req))
           (w\<lparr>files := insert (temp_path_of e (req_filename req)) (files w)\<rparr>)) =
        Inl (TimeoutExpired m tb)"
    using assms(2) by (simp add: try_block_def Let_def)
  with transcribe_answer [OF assms(1), of req w] show ?thesis by simp
qed

lemma single_nonzero_exit_answers_400:
  assumes "write_upload e = None" and "ffmpeg_run e = Inr cp" and "returncode cp \<noteq> 0"
  shows "fst (transcribe e req w) =
           JSONResponse
             [(''text'', ''''),
              (''status'', ''error''),
              (''error'', ''Audio conversion failed: '' @ stderr cp)] 400 \<or>
         (\<exists>q x. unlink_raises e q = Some x \<and> fst (transcribe e req w) = Raised x)"
proof -
  have "fst (try_block e req (temp_path_of e (req_filename req)) (wav_path_of e (req_filename req))
           (w\<lparr>files := insert (temp_path_of e (req_filename req)) (files w)\<rparr>)) =
        Inr (JSONResponse
             [(''text'', ''''),
              (''status'', ''error''),
              (''error'', ''Audio conversion failed: '' @ stderr cp)] 400)"
    using assms(2,3) by (simp add: try_block_def Let_def)
  with transcribe_answer [OF assms(1), of req w] show ?thesis by simp
qed

lemma single_nonzero_exit_no_recognition:
  assumes "ffmpeg_run e = Inr cp" and "returncode cp \<noteq> 0"
  shows "ModelTranscribe p opts \<notin> set (drop (length (calls w)) (calls (snd (transcribe e req w))))"
proof
  assume a: "ModelTranscribe p opts \<in> set (drop (length (calls w)) (calls (snd (transcribe e req w))))"
  let ?t = "temp_path_of e (req_filename req)"
  let ?wv = "wav_path_of e (req_filename req)"
  let ?w0 = "w\<lparr>files := insert ?t (files w)\<rparr>"
  from transcribe_new_calls [OF a] obtain xs
    where xs: "calls (snd (try_block e req ?t ?wv ?w0)) = calls w @ xs"
    and mem: "ModelTranscribe p opts \<in> set xs"
    by auto
  have "calls (snd (try_block e req ?t ?wv ?w0)) = calls w @ [Ffmpeg ?t ?wv]"
    using assms by (simp add: try_block_def Let_def)
  with xs have "xs = [Ffmpeg ?t ?wv]" by simp
  with mem show False by simp
qed

text \<open>
  The second service drops the result of \<^verbatim>\<open>subprocess.run\<close>: its answer does not depend on
  the exit code of ffmpeg.
\<close>

lemma get_model_ffmpeg_run:
  "get_model (e\<lparr>ffmpeg_run := x\<rparr>) m w = get_model e m w"
  by (simp add: get_model_def Let_def cong: option.case_cong sum.case_cong)

lemma cleanup_ffmpeg_run: "cleanup (e\<lparr>ffmpeg_run := x\<rparr>) ps w = cleanup e ps w"
  by (induction ps arbitrary: w) (simp_all add: cleanup.simps split: option.splits)

lemma try_block_multi_ignores_returncode:
  "try_block_multi (e\<lparr>ffmpeg_run := Inr cp\<rparr>) req info t wv w =
   try_block_multi (e\<lparr>ffmpeg_run := Inr cp'\<rparr>) req info t wv w"
  by (simp add: try_block_multi_def get_model_ffmpeg_run make_options_def Let_def
        cong: sum.case_cong prod.case_cong)

lemma multi_ignores_returncode:
  "transcribe_multi (e\<lparr>ffmpeg_run := Inr cp\<rparr>) req w =
   transcribe_multi (e\<lparr>ffmpeg_run := Inr cp'\<rparr>) req w"
proof (cases "map_of MODELS (mreq_model req)")
  case None
  then show ?thesis by (simp add: transcribe_multi_def)
next
  case (Some info)
  have t: "temp_path_of (e\<lparr>ffmpeg_run := x\<rparr>) (mreq_filename req) =
           temp_path_of e (mreq_filename req)" for x
    by (simp add: temp_path_of_def)
  have wv: "wav_path_of (e\<lparr>ffmpeg_run := x\<rparr>) (mreq_filename req) =
            wav_path_of e (mreq_filename req)" for x
    by (simp add: wav_path_of_def temp_path_of_def)
  show ?thesis
  proof (cases "write_upload e")
    case failed: (Some ex)
    with Some show ?thesis by (simp add: transcribe_multi_def Let_def t)
  next
    case None
    then have w1: "write_upload (e\<lparr>ffmpeg_run := Inr cp\<rparr>) = None"
      and w2: "write_upload (e\<lparr>ffmpeg_run := Inr cp'\<rparr>) = None"
      by simp_all
    show ?thesis
      unfolding transcribe_multi_written [OF Some w1] transcribe_multi_written [OF Some w2]
        t wv cleanup_ffmpeg_run
        try_block_multi_ignores_returncode [where cp = cp and cp' = cp']
      by (rule refl)
  qed
qed

text \<open>
  C3. The claim: a decode step that exceeds the 30 second bound fails with a timeout error
  of its own kind, answered with HTTP status 408, and the temporary files are still deleted.

  The first service does so (\<open>single_timeout_answers_408\<close>; the files are deleted whenever
  a response is returned, \<open>transcribe_files\<close>). The second service has no
  \<^verbatim>\<open>except subprocess.TimeoutExpired\<close> clause: the exception reaches \<^verbatim>\<open>except Exception\<close>
  and the answer is status 500 with the text of the exception.
\<close>

theorem multi_timeout_answers_500:
  "fst (transcribe_multi
          (multi_env_of
             (Inl (TimeoutExpired ''ffmpeg timed out after 30 seconds''
                     ''Traceback (most recent call last): ...''))
             (Inr 7) (Inr silence))
          tiny_request empty_multi_world) =
   JSONResponse
     [(''error'', ''ffmpeg timed out after 30 seconds''), (''status'', ''error'')] 500"
  by code_simp

text \<open>
  C4. The claim: when ffmpeg exits with a non-zero code, the answer is a conversion error
  with the diagnostic text of ffmpeg and HTTP status 400, and recognition is not attempted.

  The first service does so (\<open>single_nonzero_exit_answers_400\<close>,
  \<open>single_nonzero_exit_no_recognition\<close>). The second service never looks at the exit code:
  after an exit with code 1 it loads the model and calls recognition on the output path;
  here recognition raises, and the answer is status 500 without the text of ffmpeg.
\<close>

theorem multi_nonzero_exit_proceeds_to_recognition:
  "fst (transcribe_multi
          (multi_env_of
             (Inr \<lparr>returncode = 1, stderr = ''Invalid data found when processing input''\<rparr>)
             (Inr 7)
             (Inl (OtherException ''Failed to load audio'' ''Traceback (most recent call last): ...'')))
          tiny_request empty_multi_world) =
     JSONResponse [(''error'', ''Failed to load audio''), (''status'', ''error'')] 500 \<and>
   calls (snd (transcribe_multi
          (multi_env_of
             (Inr \<lparr>returncode = 1, stderr = ''Invalid data found when processing input''\<rparr>)
             (Inr 7)
             (Inl (OtherException ''Failed to load audio'' ''Traceback (most recent call last): ...'')))
          tiny_request empty_multi_world)) =
     [Ffmpeg ''/tmp/tmpab12cd34.ogg'' ''/tmp/tmpab12cd34_processed.wav'',
      LoadModel ''tiny'' None,
      ModelTranscribe ''/tmp/tmpab12cd34_processed.wav''
        \<lparr>opt_task = ''transcribe'', opt_fp16 = True, opt_language = None\<rparr>,
      Unlink ''/tmp/tmpab12cd34.ogg'']"
  by code_simp

text \<open>
  C7. The claim: when recognition or model loading fails unexpectedly, the error response
  holds only a generic message, and the diagnostic detail (such as a stack trace) is logged
  on the server and never part of the response body.

  The code does the opposite by design: line 148 puts \<^verbatim>\<open>str(e)\<close> and line 149 puts
  \<^verbatim>\<open>traceback.format_exc()\<close> into the body, and the second service puts \<^verbatim>\<open>str(e)\<close> there.
  The theorem states what the response holds, for every request in which the failing call is
  made, that is, in which the call is among those the request adds to the log:
  \<^item> in the first service, when recognition is called and raises an exception other than
    \<^verbatim>\<open>TimeoutExpired\<close>, the answer is status 500 with the message of the exception under
    \<^verbatim>\<open>error\<close> and its traceback under \<^verbatim>\<open>traceback\<close> (the model of that service is loaded
    at start-up, lines 52 to 55, outside every request);
  \<^item> in the second service, when recognition is called and raises, whether the model was
    cached or has just been loaded, the answer is status 500 with the message of the
    exception under \<^verbatim>\<open>error\<close>;
  \<^item> in the second service, when model loading is called and raises, the answer is the same
    with the message of that exception.
  The one other end of such a request is an \<^verbatim>\<open>os.unlink\<close> that raises in the \<^verbatim>\<open>finally\<close>
  clause, whose exception then leaves the handler in place of the response.
\<close>

theorem internal_error_body_carries_diagnostics:
  "(ModelTranscribe p opts \<in> set (drop (length (calls w)) (calls (snd (transcribe e req w)))) \<and>
    model_transcribe e = Inl (OtherException m tb) \<longrightarrow>
      fst (transcribe e req w) =
        JSONResponse
          [(''text'', ''''), (''status'', ''error''), (''error'', m), (''traceback'', tb)] 500 \<or>
      (\<exists>q x. unlink_raises e q = Some x \<and> fst (transcribe e req w) = Raised x)) \<and>
   (ModelTranscribe mp mopts \<in>
      set (drop (length (calls mw)) (calls (snd (transcribe_multi me mreq mw)))) \<and>
    model_transcribe me = Inl ex \<longrightarrow>
      fst (transcribe_multi me mreq mw) =
        JSONResponse [(''error'', str_exn ex), (''status'', ''error'')] 500 \<or>
      (\<exists>q x. unlink_raises me q = Some x \<and> fst (transcribe_multi me mreq mw) = Raised x)) \<and>
   (LoadModel lm download_root \<in>
      set (drop (length (calls mw)) (calls (snd (transcribe_multi me mreq mw)))) \<and>
    whisper_load me lm download_root = Inl load_exn \<longrightarrow>
      fst (transcribe_multi me mreq mw) =
        JSONResponse [(''error'', str_exn load_exn), (''status'', ''error'')] 500 \<or>
      (\<exists>q x. unlink_raises me q = Some x \<and> fst (transcribe_multi me mreq mw) = Raised x))"
proof (intro conjI impI)
  assume a: "ModelTranscribe p opts \<in> set (drop (length (calls w)) (calls (snd (transcribe e req w)))) \<and>
    model_transcribe e = Inl (OtherException m tb)"
  let ?t = "temp_path_of e (req_filename req)"
  let ?wv = "wav_path_of e (req_filename req)"
  let ?w0 = "w\<lparr>files := insert ?t (files w)\<rparr>"
  from a transcribe_new_calls [of "ModelTranscribe p opts" w e req]
  obtain xs where written: "write_upload e = None"
    and xs: "calls (snd (try_block e req ?t ?wv ?w0)) = calls w @ xs"
    and mem: "ModelTranscribe p opts \<in> set xs"
    by auto
  from try_block_calls [of e req ?t ?wv ?w0] obtain ys
    where ys: "calls (snd (try_block e req ?t ?wv ?w0)) = calls ?w0 @ ys"
    and rec: "\<forall>p opts ex. ModelTranscribe p opts \<in> set ys \<longrightarrow> model_transcribe e = Inl ex \<longrightarrow>
        fst (try_block e req ?t ?wv ?w0) = Inl ex"
    by blast
  from xs ys have "ys = xs" by simp
  with rec mem a have "fst (try_block e req ?t ?wv ?w0) = Inl (OtherException m tb)"
    by blast
  with written show "fst (transcribe e req w) =
        JSONResponse
          [(''text'', ''''), (''status'', ''error''), (''error'', m), (''traceback'', tb)] 500 \<or>
      (\<exists>q x. unlink_raises e q = Some x \<and> fst (transcribe e req w) = Raised x)"
    by (rule transcribe_try_raises)
next
  assume a: "ModelTranscribe mp mopts \<in>
      set (drop (length (calls mw)) (calls (snd (transcribe_multi me mreq mw)))) \<and>
    model_transcribe me = Inl ex"
  let ?t = "temp_path_of me (mreq_filename mreq)"
  let ?wv = "wav_path_of me (mreq_filename mreq)"
  let ?w0 = "mw\<lparr>files := insert ?t (files mw)\<rparr>"
  from a transcribe_multi_new_calls [of "ModelTranscribe mp mopts" mw me mreq]
  obtain info xs where valid: "map_of MODELS (mreq_model mreq) = Some info"
    and written: "write_upload me = None"
    and xs: "calls (snd (try_block_multi me mreq info ?t ?wv ?w0)) = calls mw @ xs"
    and mem: "ModelTranscribe mp mopts \<in> set xs"
    by auto
  from try_block_multi_calls [of me mreq info ?t ?wv ?w0] obtain ys
    where ys: "calls (snd (try_block_multi me mreq info ?t ?wv ?w0)) = calls ?w0 @ ys"
    and rec: "\<forall>p opts ex. ModelTranscribe p opts \<in> set ys \<longrightarrow> model_transcribe me = Inl ex \<longrightarrow>
        fst (try_block_multi me mreq info ?t ?wv ?w0) = Inl ex"
    by blast
  from xs ys have "ys = xs" by simp
  with rec mem a have "fst (try_block_multi me mreq info ?t ?wv ?w0) = Inl ex"
    by blast
  with valid written show "fst (transcribe_multi me mreq mw) =
        JSONResponse [(''error'', str_exn ex), (''status'', ''error'')] 500 \<or>
      (\<exists>q x. unlink_raises me q = Some x \<and> fst (transcribe_multi me mreq mw) = Raised x)"
    by (rule transcribe_multi_try_raises)
next
  assume a: "LoadModel lm download_root \<in>
      set (drop (length (calls mw)) (calls (snd (transcribe_multi me mreq mw)))) \<and>
    whisper_load me lm download_root = Inl load_exn"
  let ?t = "temp_path_of me (mreq_filename mreq)"
  let ?wv = "wav_path_of me (mreq_filename mreq)"
  let ?w0 = "mw\<lparr>files := insert ?t (files mw)\<rparr>"
  from a transcribe_multi_new_calls [of "LoadModel lm download_root" mw me mreq]
  obtain info xs where valid: "map_of MODELS (mreq_model mreq) = Some info"
    and written: "write_upload me = None"
    and xs: "calls (snd (try_block_multi me mreq info ?t ?wv ?w0)) = calls mw @ xs"
    and mem: "LoadModel lm download_root \<in> set xs"
    by auto
  from try_block_multi_calls [of me mreq info ?t ?wv ?w0] obtain ys
    where ys: "calls (snd (try_block_multi me mreq info ?t ?wv ?w0)) = calls ?w0 @ ys"
    and ld: "\<forall>m root ex. LoadModel m root \<in> set ys \<longrightarrow> whisper_load me m root = Inl ex \<longrightarrow>
        fst (try_block_multi me mreq info ?t ?wv ?w0) = Inl ex"
    by blast
  from xs ys have "ys = xs" by simp
  with ld mem a have "fst (try_block_multi me mreq info ?t ?wv ?w0) = Inl load_exn"
    by blast
  with valid written show "fst (transcribe_multi me mreq mw) =
        JSONResponse [(''error'', str_exn load_exn), (''status'', ''error'')] 500 \<or>
      (\<exists>q x. unlink_raises me q = Some x \<and> fst (transcribe_multi me mreq mw) = Raised x)"
    by (rule transcribe_multi_try_raises)
qed

theorem internal_error_body_carries_diagnostics_witness:
  "ModelTranscribe ''/tmp/tmpab12cd34_processed.wav''
       \<lparr>opt_task = ''transcribe'', opt_fp16 = True, opt_language = None\<rparr> \<in>
     set (drop (length (calls empty_world))
       (calls (snd (transcribe
          ((decoded_env silence)
             \<lparr>model_transcribe := Inl (OtherException ''CUDA out of memory'' ''Traceback: ...'')\<rparr>)
          voice_request empty_world)))) \<and>
   fst (transcribe
          ((decoded_env silence)
             \<lparr>model_transcribe := Inl (OtherException ''CUDA out of memory'' ''Traceback: ...'')\<rparr>)
          voice_request empty_world) =
     JSONResponse
       [(''text'', ''''), (''status'', ''error''), (''error'', ''CUDA out of memory''),
        (''traceback'', ''Traceback: ...'')] 500 \<and>
   loaded_models empty_multi_world ''tiny'' = None \<and>
   ModelTranscribe ''/tmp/tmpab12cd34_processed.wav''
       \<lparr>opt_task = ''transcribe'', opt_fp16 = True, opt_language = None\<rparr> \<in>
     set (drop (length (calls empty_multi_world))
       (calls (snd (transcribe_multi
          (multi_env_of (Inr \<lparr>returncode = 0, stderr = []\<rparr>) (Inr 7)
             (Inl (OtherException ''CUDA out of memory'' ''Traceback: ...'')))
          tiny_request empty_multi_world)))) \<and>
   fst (transcribe_multi
          (multi_env_of (Inr \<lparr>returncode = 0, stderr = []\<rparr>) (Inr 7)
             (Inl (OtherException ''CUDA out of memory'' ''Traceback: ...'')))
          tiny_request empty_multi_world) =
     JSONResponse [(''error'', ''CUDA out of memory''), (''status'', ''error'')] 500 \<and>
   LoadModel ''tiny'' None \<in>
     set (drop (length (calls empty_multi_world))
       (calls (snd (transcribe_multi
          (multi_env_of (Inr \<lparr>returncode = 0, stderr = []\<rparr>)
             (Inl (OtherException ''checkpoint is corrupt'' ''Traceback: ...'')) (Inr silence))
          tiny_request empty_multi_world)))) \<and>
   fst (transcribe_multi
          (multi_env_of (Inr \<lparr>returncode = 0, stderr = []\<rparr>)
             (Inl (OtherException ''checkpoint is corrupt'' ''Traceback: ...'')) (Inr silence))
          tiny_request empty_multi_world) =
     JSONResponse [(''error'', ''checkpoint is corrupt''), (''status'', ''error'')] 500"
proof -
  note T = internal_error_body_carries_diagnostics
  let ?oom = "OtherException ''CUDA out of memory'' ''Traceback: ...''"
  let ?bad = "OtherException ''checkpoint is corrupt'' ''Traceback: ...''"
  let ?cp = "\<lparr>returncode = 0, stderr = []\<rparr>"
  let ?p = "''/tmp/tmpab12cd34_processed.wav''"
  let ?opts = "\<lparr>opt_task = ''transcribe'', opt_fp16 = True, opt_language = None\<rparr>"
  let ?e = "(decoded_env silence)\<lparr>model_transcribe := Inl ?oom\<rparr>"
  let ?me = "multi_env_of (Inr ?cp) (Inr 7) (Inl ?oom)"
  let ?le = "multi_env_of (Inr ?cp) (Inl ?bad) (Inr silence)"
  have h1: "ModelTranscribe ?p ?opts \<in>
      set (drop (length (calls empty_world)) (calls (snd (transcribe ?e voice_request empty_world))))"
    by code_simp
  have r1: "model_transcribe ?e = Inl ?oom"
    by simp
  have u1: "unlink_raises ?e q = None" for q
    by (simp add: decoded_env_def)
  from T [where e = ?e and req = voice_request and w = empty_world and p = ?p and opts = ?opts
        and m = "''CUDA out of memory''" and tb = "''Traceback: ...''", THEN conjunct1] h1 r1
  have "fst (transcribe ?e voice_request empty_world) =
     JSONResponse
       [(''text'', ''''), (''status'', ''error''), (''error'', ''CUDA out of memory''),
        (''traceback'', ''Traceback: ...'')] 500 \<or>
     (\<exists>q x. unlink_raises ?e q = Some x \<and> fst (transcribe ?e voice_request empty_world) = Raised x)"
    by blast
  with u1 have a: "fst (transcribe ?e voice_request empty_world) =
     JSONResponse
       [(''text'', ''''), (''status'', ''error''), (''error'', ''CUDA out of memory''),
        (''traceback'', ''Traceback: ...'')] 500"
    by simp
  have c0: "loaded_models empty_multi_world ''tiny'' = None"
    by (simp add: empty_multi_world_def)
  have h2: "ModelTranscribe ?p ?opts \<in>
      set (drop (length (calls empty_multi_world))
        (calls (snd (transcribe_multi ?me tiny_request empty_multi_world))))"
    by code_simp
  have r2: "model_transcribe ?me = Inl ?oom"
    by (simp add: multi_env_of_def)
  have u2: "unlink_raises ?me q = None" for q
    by (simp add: multi_env_of_def)
  from T [where me = ?me and mreq = tiny_request and mw = empty_multi_world and mp = ?p
        and mopts = ?opts and ex = ?oom, THEN conjunct2, THEN conjunct1] h2 r2
  have "fst (transcribe_multi ?me tiny_request empty_multi_world) =
     JSONResponse [(''error'', str_exn ?oom), (''status'', ''error'')] 500 \<or>
     (\<exists>q x. unlink_raises ?me q = Some x \<and>
        fst (transcribe_multi ?me tiny_request empty_multi_world) = Raised x)"
    by blast
  with u2 have b: "fst (transcribe_multi ?me tiny_request empty_multi_world) =
     JSONResponse [(''error'', ''CUDA out of memory''), (''status'', ''error'')] 500"
    by simp
  have h3: "LoadModel ''tiny'' None \<in>
      set (drop (length (calls empty_multi_world))
        (calls (snd (transcribe_multi ?le tiny_request empty_multi_world))))"
    by code_simp
  have r3: "whisper_load ?le ''tiny'' None = Inl ?bad"
    by (simp add: multi_env_of_def)
  have u3: "unlink_raises ?le q = None" for q
    by (simp add: multi_env_of_def)
  from T [where me = ?le and mreq = tiny_request and mw = empty_multi_world and lm = "''tiny''"
        and download_root = None and load_exn = ?bad, THEN conjunct2, THEN conjunct2] h3 r3
  have "fst (transcribe_multi ?le tiny_request empty_multi_world) =
     JSONResponse [(''error'', str_exn ?bad), (''status'', ''error'')] 500 \<or>
     (\<exists>q x. unlink_raises ?le q = Some x \<and>
        fst (transcribe_multi ?le tiny_request empty_multi_world) = Raised x)"
    by blast
  with u3 have c: "fst (transcribe_multi ?le tiny_request empty_multi_world) =
     JSONResponse [(''error'', ''checkpoint is corrupt''), (''status'', ''error'')] 500"
    by simp
  from h1 a c0 h2 b h3 c show ?thesis by blast
qed

theorem internal_error_body_counterexample:
  "fst (transcribe
          ((decoded_env silence)
             \<lparr>model_transcribe :=
                Inl (OtherException ''CUDA out of memory'' ''Traceback (most recent call last): ...'')\<rparr>)
          voice_request empty_world) =
   JSONResponse
     [(''text'', ''''),
      (''status'', ''error''),
      (''error'', ''CUDA out of memory''),
      (''traceback'', ''Traceback (most recent call last): ...'')] 500"
  by code_simp

subsection \<open>The model cache\<close>

text \<open>
  Called one after the other, \<^verbatim>\<open>get_model\<close> loads a model once: a call that returned a
  handle has cached it, and the next call returns the same handle without a load and
  without a change of state. A load that raises caches nothing, so the next call loads
  again. (C8 is about calls that overlap in time, which this sequential model does not
  describe; the source takes no lock.)
\<close>

lemma get_model_cached:
  assumes "get_model e m w = (Inr h, w')"
  shows "get_model e m w' = (Inr h, w')"
proof (cases "loaded_models w m")
  case (Some h')
  with assms show ?thesis by (simp add: get_model_def)
next
  case None
  let ?root = "if ''/models/whisper-'' @ m @ ''.pt'' \<in> files w then Some ''/models'' else None"
  show ?thesis
  proof (cases "whisper_load e m ?root")
    case (Inl ex)
    with None assms show ?thesis by (simp add: get_model_def Let_def)
  next
    case (Inr h')
    with None assms have "loaded_models w' m = Some h" "h' = h"
      by (auto simp: get_model_def Let_def)
    then show ?thesis by (simp add: get_model_def)
  qed
qed

lemma get_model_failure_keeps_cache:
  assumes "get_model e m w = (Inl ex, w')"
  shows "loaded_models w' = loaded_models w"
proof (cases "loaded_models w m")
  case (Some h')
  with assms show ?thesis by (simp add: get_model_def)
next
  case None
  let ?root = "if ''/models/whisper-'' @ m @ ''.pt'' \<in> files w then Some ''/models'' else None"
  show ?thesis
  proof (cases "whisper_load e m ?root")
    case (Inl ex')
    with None assms show ?thesis by (auto simp: get_model_def Let_def)
  next
    case (Inr h')
    with None assms show ?thesis by (simp add: get_model_def Let_def)
  qed
qed

end
